theory Spec2Isabelle
  imports Main "HOL-Library.Sublist"
begin

section \<open>Data model (shared/schema.ts)\<close>

text \<open>
  JavaScript strings are sequences of UTF-16 code units. They are modelled as HOL strings,
  every \<^typ>\<open>char\<close> standing for one code unit below 256 (the Latin-1 range).
  Identifiers are JavaScript numbers holding integers; they are modelled as \<^typ>\<open>int\<close>
  (exact below \<open>2^53\<close>, which no counter of this program reaches).
\<close>

record RestaurantFacts =
  name :: string
  address :: string
  url :: string
  type :: string
  brandTone :: string
  todoFacts :: "string list"

record CustomerFacts =
  name :: string
  gender :: string
  history :: string
  meal :: string
  todoFacts :: "string list"

record SystemFacts =
  promptTemplate :: string
  responseLength :: string
  includeApology :: bool
  includeMarketing :: bool
  multipleResponses :: bool

text \<open>\<open>InsertFactConfiguration\<close>: a configuration without its identifier.\<close>

record InsertFactConfiguration =
  restaurantFacts :: RestaurantFacts
  customerFacts :: CustomerFacts
  systemFacts :: SystemFacts

text \<open>\<open>FactConfiguration\<close>; the field \<open>id\<close> of the source is \<open>ident\<close> here.\<close>

record FactConfiguration =
  ident :: int
  restaurantFacts :: RestaurantFacts
  customerFacts :: CustomerFacts
  systemFacts :: SystemFacts

text \<open>
  \<open>Partial<InsertFactConfiguration>\<close>: every fact group is given or absent (a group given
  as \<open>undefined\<close> is not told apart from an absent one).
\<close>

record PartialFactConfiguration =
  restaurantFacts :: "RestaurantFacts option"
  customerFacts :: "CustomerFacts option"
  systemFacts :: "SystemFacts option"

text \<open>\<open>InsertFeedbackResponse\<close>: \<open>configurationId\<close> is optional in the insert schema.\<close>

record InsertFeedbackResponse =
  feedbackText :: string
  aiResponse :: string
  configurationId :: "int option"

text \<open>
  \<open>FeedbackResponse\<close> as the stores build it. The object spread of the in-memory store
  copies whatever the payload holds, so \<open>configurationId\<close> can stay absent at run time.
\<close>

record FeedbackResponse =
  ident :: int
  feedbackText :: string
  aiResponse :: string
  configurationId :: "int option"

section \<open>JavaScript string primitives used by the routes\<close>

text \<open>\<open>Array.prototype.join\<close> on an array of strings.\<close>

fun join :: "string \<Rightarrow> string list \<Rightarrow> string" where
  "join sep [] = []"
| "join sep [x] = x"
| "join sep (x # y # ys) = x @ sep @ join sep (y # ys)"

text \<open>
  \<open>GetSubstitution\<close> of ECMAScript for a pattern without capture groups: in the replacement
  text \<open>$$\<close> stands for a dollar sign, \<open>$&\<close> for the matched text, \<open>$`\<close> for the
  part of the subject before the match and \<open>$'\<close> for the part after it. A dollar sign
  followed by anything else (there is no group that \<open>$1\<close> or \<open>$<\<close> could name) stays.
\<close>

fun GetSubstitution :: "string \<Rightarrow> string \<Rightarrow> string \<Rightarrow> string \<Rightarrow> string" where
  "GetSubstitution matched pre post [] = []"
| "GetSubstitution matched pre post [c] = [c]"
| "GetSubstitution matched pre post (c # d # r) =
     (if c = CHR ''$'' then
        (if d = CHR ''$'' then CHR ''$'' # GetSubstitution matched pre post r
         else if d = CHR ''&'' then matched @ GetSubstitution matched pre post r
         else if d = CHR 0x60 then pre @ GetSubstitution matched pre post r
         else if d = CHR 0x27 then post @ GetSubstitution matched pre post r
         else c # GetSubstitution matched pre post (d # r))
      else c # GetSubstitution matched pre post (d # r))"

text \<open>
  \<open>s.replace(/pat/g, repl)\<close> for a regular expression that is one literal, non-empty
  token \<open>pat\<close> (all eleven expressions of the route are of this kind): the subject is
  scanned from the left, every match is replaced by the expansion of \<open>repl\<close> and the scan
  goes on behind the match. \<open>pre\<close> is the part of the subject already scanned.
\<close>

function replace_go :: "string \<Rightarrow> string \<Rightarrow> string \<Rightarrow> string \<Rightarrow> string" where
  "replace_go pat repl pre [] = []"
| "replace_go pat repl pre (c # cs) =
     (if pat \<noteq> [] \<and> prefix pat (c # cs)
      then GetSubstitution pat pre (drop (length pat) (c # cs)) repl
           @ replace_go pat repl (pre @ pat) (drop (length pat) (c # cs))
      else c # replace_go pat repl (pre @ [c]) cs)"
  by pat_completeness auto
termination
  by (relation "measure (\<lambda>(pat, repl, pre, s). length s)") (auto simp: neq_Nil_conv)

definition replace_global :: "string \<Rightarrow> string \<Rightarrow> string \<Rightarrow> string" where
  "replace_global pat repl s = replace_go pat repl [] s"

text \<open>\<open>String.prototype.includes\<close>.\<close>

fun string_includes :: "string \<Rightarrow> string \<Rightarrow> bool" where
  "string_includes [] search = (search = [])"
| "string_includes (c # cs) search = (prefix search (c # cs) \<or> string_includes cs search)"

text \<open>
  \<open>String.prototype.toLowerCase\<close> on code units below 256: the letters A to Z and the
  Latin-1 capitals (192 to 222 without the multiplication sign 215) move up by 32.
\<close>

definition toLowerChar :: "char \<Rightarrow> char" where
  "toLowerChar c =
     (let n = (of_char c :: nat)
      in if (65 \<le> n \<and> n \<le> 90) \<or> (192 \<le> n \<and> n \<le> 222 \<and> n \<noteq> 215)
         then char_of (n + 32) else c)"

definition toLowerCase :: "string \<Rightarrow> string" where
  "toLowerCase s = map toLowerChar s"

text \<open>The class \<open>\s\<close> of a regular expression, on code units below 256.\<close>

definition isWhiteSpace :: "char \<Rightarrow> bool" where
  "isWhiteSpace c =
     (let n = (of_char c :: nat)
      in n = 9 \<or> n = 10 \<or> n = 11 \<or> n = 12 \<or> n = 13 \<or> n = 32 \<or> n = 160)"

text \<open>
  \<open>s.split(/\s+/)\<close>: the pieces between the maximal runs of white space. A run at the
  start or at the end of the subject leaves an empty piece there, and the empty subject
  gives one empty piece. \<open>cur\<close> is the piece being read.
\<close>

function split_ws_go :: "string \<Rightarrow> string \<Rightarrow> string list" where
  "split_ws_go cur [] = [cur]"
| "split_ws_go cur (c # cs) =
     (if isWhiteSpace c then cur # split_ws_go [] (dropWhile isWhiteSpace cs)
      else split_ws_go (cur @ [c]) cs)"
  by pat_completeness auto
termination
  by (relation "measure (\<lambda>(cur, s). length s)")
     (auto simp: length_dropWhile_le less_Suc_eq_le)

definition split_ws :: "string \<Rightarrow> string list" where
  "split_ws s = split_ws_go [] s"

section \<open>Length policy (routes, generate-response)\<close>

text \<open>
  The values a property read on the object literal \<open>lengthGuidance\<close> can give: one of its
  three strings, \<open>undefined\<close>, or what the literal inherits from \<open>Object.prototype\<close>
  (built-in functions, and \<open>Object.prototype\<close> itself under \<open>__proto__\<close>).
\<close>

datatype js_value =
    JSUndefined
  | JSString string
  | JSBuiltinFunction string
  | JSObjectPrototype

text \<open>The properties of \<open>Object.prototype\<close> (Node.js); \<open>constructor\<close> is the function \<open>Object\<close>.\<close>

definition Object_prototype_get :: "string \<Rightarrow> js_value" where
  "Object_prototype_get key =
     (if key = ''constructor'' then JSBuiltinFunction ''Object''
      else if key \<in> set [''toString'', ''toLocaleString'', ''valueOf'', ''hasOwnProperty'',
                 ''isPrototypeOf'', ''propertyIsEnumerable'', ''__defineGetter__'',
                 ''__defineSetter__'', ''__lookupGetter__'', ''__lookupSetter__'']
      then JSBuiltinFunction key
      else if key = ''__proto__'' then JSObjectPrototype
      else JSUndefined)"

text \<open>\<open>lengthGuidance[key]\<close>: the own properties first, then the prototype.\<close>

definition lengthGuidance :: "string \<Rightarrow> js_value" where
  "lengthGuidance key =
     (if key = ''short'' then JSString ''Keep the response concise, around 2-3 sentences.''
      else if key = ''medium''
        then JSString ''Provide a moderate length response, around 3-4 paragraphs.''
      else if key = ''detailed''
        then JSString ''Provide a comprehensive response with detailed explanations.''
      else Object_prototype_get key)"

fun truthy :: "js_value \<Rightarrow> bool" where
  "truthy JSUndefined = False"
| "truthy (JSString s) = (s \<noteq> [])"
| "truthy (JSBuiltinFunction f) = True"
| "truthy JSObjectPrototype = True"

definition js_or :: "js_value \<Rightarrow> js_value \<Rightarrow> js_value" where
  "js_or a b = (if truthy a then a else b)"

text \<open>\<open>ToString\<close>, as a template literal applies it (the text of a built-in function as Node.js prints it).\<close>

fun ToString :: "js_value \<Rightarrow> string" where
  "ToString JSUndefined = ''undefined''"
| "ToString (JSString s) = s"
| "ToString (JSBuiltinFunction f) = ''function '' @ f @ ''() { [native code] }''"
| "ToString JSObjectPrototype = ''[object Object]''"

text \<open>The instruction that the route puts behind the rendered prompt.\<close>

definition lengthInstruction :: "string \<Rightarrow> string" where
  "lengthInstruction rl = ToString (js_or (lengthGuidance rl) (lengthGuidance ''medium''))"

text \<open>\<open>prompt += `\n\n${lengthGuidance[responseLength] || lengthGuidance.medium}`\<close>\<close>

definition appendLengthGuidance :: "string \<Rightarrow> string \<Rightarrow> string" where
  "appendLengthGuidance prompt rl = prompt @ [CHR 0x0A, CHR 0x0A] @ lengthInstruction rl"

definition max_tokens :: "string \<Rightarrow> nat" where
  "max_tokens rl = (if rl = ''detailed'' then 1000 else if rl = ''short'' then 200 else 500)"

section \<open>Response analytics (routes, generate-response)\<close>

definition wordCount :: "string \<Rightarrow> nat" where
  "wordCount ai = length (split_ws ai)"

definition sentiment :: "string \<Rightarrow> string" where
  "sentiment ft =
     (if string_includes (toLowerCase ft) ''great'' \<or>
         string_includes (toLowerCase ft) ''excellent'' \<or>
         string_includes (toLowerCase ft) ''amazing'' \<or>
         string_includes (toLowerCase ft) ''wonderful'' \<or>
         string_includes (toLowerCase ft) ''outstanding'' then ''Positive''
      else if string_includes (toLowerCase ft) ''bad'' \<or>
         string_includes (toLowerCase ft) ''terrible'' \<or>
         string_includes (toLowerCase ft) ''awful'' \<or>
         string_includes (toLowerCase ft) ''horrible'' then ''Negative''
      else ''Neutral'')"

text \<open>
  Following the spec's words: the white-space-delimited tokens of a text are its maximal
  runs of characters that are not white space.
\<close>

fun tokens_go :: "string \<Rightarrow> string \<Rightarrow> string list" where
  "tokens_go cur [] = (if cur = [] then [] else [cur])"
| "tokens_go cur (c # cs) =
     (if isWhiteSpace c then (if cur = [] then tokens_go [] cs else cur # tokens_go [] cs)
      else tokens_go (cur @ [c]) cs)"

definition whitespace_tokens :: "string \<Rightarrow> string list" where
  "whitespace_tokens s = tokens_go [] s"

text \<open>
  Following the spec's words: a text contains a keyword case-insensitively when the letters
  of the keyword stand somewhere in the text in a row, each as it is or as its capital. The
  keywords are written in small letters; the capital of a small letter (a to z, and the
  small letters of Latin-1) is 32 code units below it.
\<close>

definition is_small_letter :: "char \<Rightarrow> bool" where
  "is_small_letter c =
     (let n = (of_char c :: nat)
      in (97 \<le> n \<and> n \<le> 122) \<or> (224 \<le> n \<and> n \<le> 254 \<and> n \<noteq> 247))"

definition same_letter :: "char \<Rightarrow> char \<Rightarrow> bool" where
  "same_letter k c \<longleftrightarrow> c = k \<or> (is_small_letter k \<and> (of_char c :: nat) + 32 = of_char k)"

fun ci_prefix :: "string \<Rightarrow> string \<Rightarrow> bool" where
  "ci_prefix [] s = True"
| "ci_prefix (k # ks) [] = False"
| "ci_prefix (k # ks) (c # cs) = (same_letter k c \<and> ci_prefix ks cs)"

fun ci_contains :: "string \<Rightarrow> string \<Rightarrow> bool" where
  "ci_contains [] kw = (kw = [])"
| "ci_contains (c # cs) kw = (ci_prefix kw (c # cs) \<or> ci_contains cs kw)"

section \<open>The default configuration (both stores seed themselves with it)\<close>

definition defaultPromptTemplate :: string where
  \<open>defaultPromptTemplate = ''You are a customer relationship manager for a restaurant named "{Restaurant Name}", located at "{Address}". The restaurant type is "{Restaurant Type}" and communicates with a "{Brand tone}" tone.\<newline>\<newline>A customer named "{Customer Name}" ({Gender}), a "{Customer History}" customer, recently had "{Meal type}" and left feedback: "{Customer Feedback Text}".\<newline>\<newline>Consider the following additional restaurant facts: {Restaurant Todo List Facts}\<newline>Consider the following additional customer facts: {Customer Todo List Facts}\<newline>\<newline>Generate a thoughtful, concise response addressing the customer's feedback appropriately. If feedback is negative, consider a polite apology. If positive, consider a friendly marketing message inviting them back.''\<close>

definition defaultFacts :: InsertFactConfiguration where
  "defaultFacts =
     \<lparr>InsertFactConfiguration.restaurantFacts =
        \<lparr>RestaurantFacts.name = ''Sample Bistro'',
         address = ''123 Main Street, Anytown'',
         url = ''https://samplebistro.com'',
         type = ''Casual'',
         brandTone = ''Friendly'',
         RestaurantFacts.todoFacts =
           [''Currently running Summer Specials'', ''Famous for seafood dishes'']\<rparr>,
      InsertFactConfiguration.customerFacts =
        \<lparr>CustomerFacts.name = ''John Doe'',
         gender = ''M'',
         history = ''Long-time'',
         meal = ''Dinner'',
         CustomerFacts.todoFacts =
           [''Prefers window seating'', ''Usually orders vegetarian dishes'']\<rparr>,
      InsertFactConfiguration.systemFacts =
        \<lparr>promptTemplate = defaultPromptTemplate,
         responseLength = ''medium'',
         includeApology = True,
         includeMarketing = True,
         multipleResponses = False\<rparr>\<rparr>"

section \<open>The in-memory store (class MemStorage)\<close>

text \<open>
  A JavaScript \<open>Map\<close> is the list of its entries in insertion order: \<open>set\<close> on a key
  that is present replaces the value where it stands, on a new key it adds an entry at the end.
\<close>

fun Map_get :: "('k \<times> 'v) list \<Rightarrow> 'k \<Rightarrow> 'v option" where
  "Map_get [] k = None"
| "Map_get ((k', v) # m) k = (if k' = k then Some v else Map_get m k)"

fun Map_set :: "'k \<Rightarrow> 'v \<Rightarrow> ('k \<times> 'v) list \<Rightarrow> ('k \<times> 'v) list" where
  "Map_set k v [] = [(k, v)]"
| "Map_set k v ((k', v') # m) = (if k' = k then (k, v) # m else (k', v') # Map_set k v m)"

definition Map_keys :: "('k \<times> 'v) list \<Rightarrow> 'k list" where
  "Map_keys m = map fst m"

definition Map_values :: "('k \<times> 'v) list \<Rightarrow> 'v list" where
  "Map_values m = map snd m"

definition Map_size :: "('k \<times> 'v) list \<Rightarrow> nat" where
  "Map_size m = length m"

text \<open>\<open>Math.max(...ids)\<close>; \<open>None\<close> is the \<open>-Infinity\<close> of no argument.\<close>

fun Math_max :: "int list \<Rightarrow> int option" where
  "Math_max [] = None"
| "Math_max (x # xs) = (case Math_max xs of None \<Rightarrow> Some x | Some m \<Rightarrow> Some (max x m))"

record MemStorage =
  factConfigs :: "(int \<times> FactConfiguration) list"
  feedbackResp :: "(int \<times> FeedbackResponse) list"
  currentConfigId :: int
  currentResponseId :: int

definition MemStorage_getFactConfiguration :: "int \<Rightarrow> MemStorage \<Rightarrow> FactConfiguration option" where
  "MemStorage_getFactConfiguration i st = Map_get (factConfigs st) i"

definition MemStorage_getLatestFactConfiguration :: "MemStorage \<Rightarrow> FactConfiguration option" where
  "MemStorage_getLatestFactConfiguration st =
     (if Map_size (factConfigs st) = 0 then None
      else case Math_max (Map_keys (factConfigs st)) of
             None \<Rightarrow> None
           | Some latestId \<Rightarrow> Map_get (factConfigs st) latestId)"

text \<open>\<open>const id = this.currentConfigId++; const factConfig = { ...config, id }\<close>\<close>

definition MemStorage_createFactConfiguration ::
  "InsertFactConfiguration \<Rightarrow> MemStorage \<Rightarrow> FactConfiguration \<times> MemStorage" where
  "MemStorage_createFactConfiguration config st =
     (let i = currentConfigId st;
          factConfig =
            \<lparr>FactConfiguration.ident = i,
             FactConfiguration.restaurantFacts = InsertFactConfiguration.restaurantFacts config,
             FactConfiguration.customerFacts = InsertFactConfiguration.customerFacts config,
             FactConfiguration.systemFacts = InsertFactConfiguration.systemFacts config\<rparr>
      in (factConfig,
          st\<lparr>currentConfigId := i + 1, factConfigs := Map_set i factConfig (factConfigs st)\<rparr>))"

text \<open>\<open>const updated = { ...existing, ...config, id }\<close>\<close>

definition MemStorage_updateFactConfiguration ::
  "int \<Rightarrow> PartialFactConfiguration \<Rightarrow> MemStorage \<Rightarrow> FactConfiguration option \<times> MemStorage" where
  "MemStorage_updateFactConfiguration i config st =
     (case Map_get (factConfigs st) i of
        None \<Rightarrow> (None, st)
      | Some existing \<Rightarrow>
          (let updated =
             \<lparr>FactConfiguration.ident = i,
              FactConfiguration.restaurantFacts =
                (case PartialFactConfiguration.restaurantFacts config of
                   Some r \<Rightarrow> r | None \<Rightarrow> FactConfiguration.restaurantFacts existing),
              FactConfiguration.customerFacts =
                (case PartialFactConfiguration.customerFacts config of
                   Some c \<Rightarrow> c | None \<Rightarrow> FactConfiguration.customerFacts existing),
              FactConfiguration.systemFacts =
                (case PartialFactConfiguration.systemFacts config of
                   Some s \<Rightarrow> s | None \<Rightarrow> FactConfiguration.systemFacts existing)\<rparr>
           in (Some updated, st\<lparr>factConfigs := Map_set i updated (factConfigs st)\<rparr>)))"

definition MemStorage_getFeedbackResponse :: "int \<Rightarrow> MemStorage \<Rightarrow> FeedbackResponse option" where
  "MemStorage_getFeedbackResponse i st = Map_get (feedbackResp st) i"

text \<open>\<open>const id = this.currentResponseId++; const feedbackResponse = { ...response, id }\<close>\<close>

definition MemStorage_createFeedbackResponse ::
  "InsertFeedbackResponse \<Rightarrow> MemStorage \<Rightarrow> FeedbackResponse \<times> MemStorage" where
  "MemStorage_createFeedbackResponse response st =
     (let i = currentResponseId st;
          feedbackResponse =
            \<lparr>FeedbackResponse.ident = i,
             FeedbackResponse.feedbackText = InsertFeedbackResponse.feedbackText response,
             FeedbackResponse.aiResponse = InsertFeedbackResponse.aiResponse response,
             FeedbackResponse.configurationId = InsertFeedbackResponse.configurationId response\<rparr>
      in (feedbackResponse,
          st\<lparr>currentResponseId := i + 1,
             feedbackResp := Map_set i feedbackResponse (feedbackResp st)\<rparr>))"

definition MemStorage_getAllFeedbackResponses :: "MemStorage \<Rightarrow> FeedbackResponse list" where
  "MemStorage_getAllFeedbackResponses st = Map_values (feedbackResp st)"

text \<open>The constructor: empty maps, both counters at 1, then the default configuration.\<close>

definition MemStorage_empty :: MemStorage where
  "MemStorage_empty =
     \<lparr>factConfigs = [], feedbackResp = [], currentConfigId = 1, currentResponseId = 1\<rparr>"

definition MemStorage_new :: MemStorage where
  "MemStorage_new = snd (MemStorage_createFactConfiguration defaultFacts MemStorage_empty)"

section \<open>The file-backed store (class FileStorage)\<close>

text \<open>
  The two JSON files of the data directory, absent (\<open>None\<close>) or holding a list and the
  next identifier. Every method reads its file, and the methods that change something write
  it back; \<open>fs.readFile\<close> and \<open>fs.writeFile\<close> can throw, and the private helpers catch
  that, so every call gets the outcome of its read and of its write as \<open>io\<close>.
\<close>

record ConfigurationsData =
  configs :: "FactConfiguration list"
  nextId :: int

record ResponsesData =
  responses :: "FeedbackResponse list"
  nextId :: int

record FileSystem =
  configFile :: "ConfigurationsData option"
  responsesFile :: "ResponsesData option"

record io =
  readFile_ok :: bool
  writeFile_ok :: bool

text \<open>The default configuration under the identifier 1, as the file-backed store writes it.\<close>

definition defaultConfiguration :: FactConfiguration where
  "defaultConfiguration =
     \<lparr>FactConfiguration.ident = 1,
      FactConfiguration.restaurantFacts = InsertFactConfiguration.restaurantFacts defaultFacts,
      FactConfiguration.customerFacts = InsertFactConfiguration.customerFacts defaultFacts,
      FactConfiguration.systemFacts = InsertFactConfiguration.systemFacts defaultFacts\<rparr>"

definition defaultConfig :: ConfigurationsData where
  "defaultConfig = \<lparr>configs = [defaultConfiguration], ConfigurationsData.nextId = 2\<rparr>"

definition defaultResponses :: ResponsesData where
  "defaultResponses = \<lparr>responses = [], ResponsesData.nextId = 1\<rparr>"

text \<open>
  \<open>ensureDataDirectory\<close>: a file that is absent is written with its default; a write that
  throws leaves the rest undone (the outer \<open>catch\<close> only logs).
\<close>

definition ensureDataDirectory :: "io \<Rightarrow> FileSystem \<Rightarrow> FileSystem" where
  "ensureDataDirectory env fs =
     (if configFile fs = None \<and> \<not> writeFile_ok env then fs
      else
        (let fs1 = (if configFile fs = None then fs\<lparr>configFile := Some defaultConfig\<rparr> else fs)
         in if responsesFile fs1 = None \<and> writeFile_ok env
            then fs1\<lparr>responsesFile := Some defaultResponses\<rparr> else fs1))"

definition readConfigurations :: "io \<Rightarrow> FileSystem \<Rightarrow> ConfigurationsData" where
  "readConfigurations env fs =
     (case configFile fs of
        Some d \<Rightarrow> if readFile_ok env then d else \<lparr>configs = [], ConfigurationsData.nextId = 1\<rparr>
      | None \<Rightarrow> \<lparr>configs = [], ConfigurationsData.nextId = 1\<rparr>)"

definition writeConfigurations :: "io \<Rightarrow> ConfigurationsData \<Rightarrow> FileSystem \<Rightarrow> FileSystem" where
  "writeConfigurations env d fs = (if writeFile_ok env then fs\<lparr>configFile := Some d\<rparr> else fs)"

definition readResponses :: "io \<Rightarrow> FileSystem \<Rightarrow> ResponsesData" where
  "readResponses env fs =
     (case responsesFile fs of
        Some d \<Rightarrow> if readFile_ok env then d else \<lparr>responses = [], ResponsesData.nextId = 1\<rparr>
      | None \<Rightarrow> \<lparr>responses = [], ResponsesData.nextId = 1\<rparr>)"

definition writeResponses :: "io \<Rightarrow> ResponsesData \<Rightarrow> FileSystem \<Rightarrow> FileSystem" where
  "writeResponses env d fs = (if writeFile_ok env then fs\<lparr>responsesFile := Some d\<rparr> else fs)"

text \<open>\<open>Array.prototype.findIndex\<close>; \<open>None\<close> is the \<open>-1\<close> of no match.\<close>

fun findIndex :: "('a \<Rightarrow> bool) \<Rightarrow> 'a list \<Rightarrow> nat option" where
  "findIndex P [] = None"
| "findIndex P (x # xs) =
     (if P x then Some 0 else case findIndex P xs of None \<Rightarrow> None | Some n \<Rightarrow> Some (Suc n))"

definition FileStorage_getFactConfiguration ::
  "io \<Rightarrow> int \<Rightarrow> FileSystem \<Rightarrow> FactConfiguration option" where
  "FileStorage_getFactConfiguration env i fs =
     List.find (\<lambda>config. FactConfiguration.ident config = i) (configs (readConfigurations env fs))"

definition FileStorage_getLatestFactConfiguration :: "io \<Rightarrow> FileSystem \<Rightarrow> FactConfiguration option" where
  "FileStorage_getLatestFactConfiguration env fs =
     (let d = readConfigurations env fs
      in if length (configs d) = 0 then None else Some (configs d ! (length (configs d) - 1)))"

definition FileStorage_createFactConfiguration ::
  "io \<Rightarrow> InsertFactConfiguration \<Rightarrow> FileSystem \<Rightarrow> FactConfiguration \<times> FileSystem" where
  "FileStorage_createFactConfiguration env config fs =
     (let d = readConfigurations env fs;
          i = ConfigurationsData.nextId d;
          factConfig =
            \<lparr>FactConfiguration.ident = i,
             FactConfiguration.restaurantFacts = InsertFactConfiguration.restaurantFacts config,
             FactConfiguration.customerFacts = InsertFactConfiguration.customerFacts config,
             FactConfiguration.systemFacts = InsertFactConfiguration.systemFacts config\<rparr>;
          d' = \<lparr>configs = configs d @ [factConfig], ConfigurationsData.nextId = i + 1\<rparr>
      in (factConfig, writeConfigurations env d' fs))"

definition FileStorage_updateFactConfiguration ::
  "io \<Rightarrow> int \<Rightarrow> PartialFactConfiguration \<Rightarrow> FileSystem \<Rightarrow> FactConfiguration option \<times> FileSystem" where
  "FileStorage_updateFactConfiguration env i config fs =
     (let d = readConfigurations env fs
      in case findIndex (\<lambda>c. FactConfiguration.ident c = i) (configs d) of
           None \<Rightarrow> (None, fs)
         | Some index \<Rightarrow>
             (let updated =
                \<lparr>FactConfiguration.ident = i,
                 FactConfiguration.restaurantFacts =
                   (case PartialFactConfiguration.restaurantFacts config of
                      Some r \<Rightarrow> r | None \<Rightarrow> FactConfiguration.restaurantFacts (configs d ! index)),
                 FactConfiguration.customerFacts =
                   (case PartialFactConfiguration.customerFacts config of
                      Some c \<Rightarrow> c | None \<Rightarrow> FactConfiguration.customerFacts (configs d ! index)),
                 FactConfiguration.systemFacts =
                   (case PartialFactConfiguration.systemFacts config of
                      Some s \<Rightarrow> s | None \<Rightarrow> FactConfiguration.systemFacts (configs d ! index))\<rparr>
              in (Some updated,
                  writeConfigurations env (d\<lparr>configs := (configs d)[index := updated]\<rparr>) fs)))"

definition FileStorage_getFeedbackResponse ::
  "io \<Rightarrow> int \<Rightarrow> FileSystem \<Rightarrow> FeedbackResponse option" where
  "FileStorage_getFeedbackResponse env i fs =
     List.find (\<lambda>response. FeedbackResponse.ident response = i) (responses (readResponses env fs))"

text \<open>
  \<open>{ ...response, id, configurationId: response.configurationId || 1 }\<close>: an absent
  \<open>configurationId\<close> and the number 0 are falsy.
\<close>

definition FileStorage_createFeedbackResponse ::
  "io \<Rightarrow> InsertFeedbackResponse \<Rightarrow> FileSystem \<Rightarrow> FeedbackResponse \<times> FileSystem" where
  "FileStorage_createFeedbackResponse env response fs =
     (let d = readResponses env fs;
          i = ResponsesData.nextId d;
          feedbackResponse =
            \<lparr>FeedbackResponse.ident = i,
             FeedbackResponse.feedbackText = InsertFeedbackResponse.feedbackText response,
             FeedbackResponse.aiResponse = InsertFeedbackResponse.aiResponse response,
             FeedbackResponse.configurationId =
               (case InsertFeedbackResponse.configurationId response of
                  Some n \<Rightarrow> if n \<noteq> 0 then Some n else Some 1
                | None \<Rightarrow> Some 1)\<rparr>;
          d' = \<lparr>responses = responses d @ [feedbackResponse], ResponsesData.nextId = i + 1\<rparr>
      in (feedbackResponse, writeResponses env d' fs))"

definition FileStorage_getAllFeedbackResponses :: "io \<Rightarrow> FileSystem \<Rightarrow> FeedbackResponse list" where
  "FileStorage_getAllFeedbackResponses env fs = responses (readResponses env fs)"

text \<open>
  The constructor, on the data directory as it finds it. It starts \<open>ensureDataDirectory\<close>
  without waiting for it; here the files are there before the first call.
\<close>

definition FileStorage_new :: "io \<Rightarrow> FileSystem \<Rightarrow> FileSystem" where
  "FileStorage_new env fs = ensureDataDirectory env fs"

section \<open>Sequences of store calls\<close>

text \<open>The calls of \<open>IStorage\<close> that change a store, and what each returns.\<close>

datatype store_call =
    CreateFactConfiguration InsertFactConfiguration
  | UpdateFactConfiguration int PartialFactConfiguration
  | CreateFeedbackResponse InsertFeedbackResponse

datatype store_result =
    CreatedFactConfiguration FactConfiguration
  | UpdatedFactConfiguration "FactConfiguration option"
  | CreatedFeedbackResponse FeedbackResponse

fun MemStorage_call :: "store_call \<Rightarrow> MemStorage \<Rightarrow> store_result \<times> MemStorage" where
  "MemStorage_call (CreateFactConfiguration config) st =
     (case MemStorage_createFactConfiguration config st of
        (c, st') \<Rightarrow> (CreatedFactConfiguration c, st'))"
| "MemStorage_call (UpdateFactConfiguration i config) st =
     (case MemStorage_updateFactConfiguration i config st of
        (r, st') \<Rightarrow> (UpdatedFactConfiguration r, st'))"
| "MemStorage_call (CreateFeedbackResponse response) st =
     (case MemStorage_createFeedbackResponse response st of
        (r, st') \<Rightarrow> (CreatedFeedbackResponse r, st'))"

fun MemStorage_calls :: "store_call list \<Rightarrow> MemStorage \<Rightarrow> store_result list \<times> MemStorage" where
  "MemStorage_calls [] st = ([], st)"
| "MemStorage_calls (c # cs) st =
     (case MemStorage_call c st of
        (r, st') \<Rightarrow> (case MemStorage_calls cs st' of (rs, st'') \<Rightarrow> (r # rs, st'')))"

text \<open>A call on the file-backed store comes with the outcome of its file accesses.\<close>

fun FileStorage_call :: "io \<times> store_call \<Rightarrow> FileSystem \<Rightarrow> store_result \<times> FileSystem" where
  "FileStorage_call (env, CreateFactConfiguration config) fs =
     (case FileStorage_createFactConfiguration env config fs of
        (c, fs') \<Rightarrow> (CreatedFactConfiguration c, fs'))"
| "FileStorage_call (env, UpdateFactConfiguration i config) fs =
     (case FileStorage_updateFactConfiguration env i config fs of
        (r, fs') \<Rightarrow> (UpdatedFactConfiguration r, fs'))"
| "FileStorage_call (env, CreateFeedbackResponse response) fs =
     (case FileStorage_createFeedbackResponse env response fs of
        (r, fs') \<Rightarrow> (CreatedFeedbackResponse r, fs'))"

fun FileStorage_calls ::
  "(io \<times> store_call) list \<Rightarrow> FileSystem \<Rightarrow> store_result list \<times> FileSystem" where
  "FileStorage_calls [] fs = ([], fs)"
| "FileStorage_calls (c # cs) fs =
     (case FileStorage_call c fs of
        (r, fs') \<Rightarrow> (case FileStorage_calls cs fs' of (rs, fs'') \<Rightarrow> (r # rs, fs'')))"

text \<open>The identifiers that the create calls of a sequence handed out, in order.\<close>

fun created_configuration_ids :: "store_result list \<Rightarrow> int list" where
  "created_configuration_ids [] = []"
| "created_configuration_ids (CreatedFactConfiguration c # rs) =
     FactConfiguration.ident c # created_configuration_ids rs"
| "created_configuration_ids (r # rs) = created_configuration_ids rs"

fun created_response_ids :: "store_result list \<Rightarrow> int list" where
  "created_response_ids [] = []"
| "created_response_ids (CreatedFeedbackResponse r # rs) =
     FeedbackResponse.ident r # created_response_ids rs"
| "created_response_ids (r # rs) = created_response_ids rs"

definition io_ok :: io where
  "io_ok = \<lparr>readFile_ok = True, writeFile_ok = True\<rparr>"

text \<open>The data directory before the first start: no file yet.\<close>

definition no_files :: FileSystem where
  "no_files = \<lparr>configFile = None, responsesFile = None\<rparr>"


section \<open>The interface of the stores (IStorage)\<close>

text \<open>
  The methods of \<open>IStorage\<close> over a store state \<open>'s\<close>; both classes implement it, and the
  routes work on the \<open>storage\<close> object that the storage module exports.
\<close>

record 's IStorage =
  getFactConfiguration :: "int \<Rightarrow> 's \<Rightarrow> FactConfiguration option"
  getLatestFactConfiguration :: "'s \<Rightarrow> FactConfiguration option"
  createFactConfiguration :: "InsertFactConfiguration \<Rightarrow> 's \<Rightarrow> FactConfiguration \<times> 's"
  updateFactConfiguration ::
    "int \<Rightarrow> PartialFactConfiguration \<Rightarrow> 's \<Rightarrow> FactConfiguration option \<times> 's"
  getFeedbackResponse :: "int \<Rightarrow> 's \<Rightarrow> FeedbackResponse option"
  createFeedbackResponse :: "InsertFeedbackResponse \<Rightarrow> 's \<Rightarrow> FeedbackResponse \<times> 's"
  getAllFeedbackResponses :: "'s \<Rightarrow> FeedbackResponse list"

definition MemStorage_methods :: "MemStorage IStorage" where
  "MemStorage_methods =
     \<lparr>getFactConfiguration = MemStorage_getFactConfiguration,
      getLatestFactConfiguration = MemStorage_getLatestFactConfiguration,
      createFactConfiguration = MemStorage_createFactConfiguration,
      updateFactConfiguration = MemStorage_updateFactConfiguration,
      getFeedbackResponse = MemStorage_getFeedbackResponse,
      createFeedbackResponse = MemStorage_createFeedbackResponse,
      getAllFeedbackResponses = MemStorage_getAllFeedbackResponses\<rparr>"

text \<open>The file-backed store, with the outcome of the file accesses of a request.\<close>

definition FileStorage_methods :: "io \<Rightarrow> FileSystem IStorage" where
  "FileStorage_methods env =
     \<lparr>getFactConfiguration = FileStorage_getFactConfiguration env,
      getLatestFactConfiguration = FileStorage_getLatestFactConfiguration env,
      createFactConfiguration = FileStorage_createFactConfiguration env,
      updateFactConfiguration = FileStorage_updateFactConfiguration env,
      getFeedbackResponse = FileStorage_getFeedbackResponse env,
      createFeedbackResponse = FileStorage_createFeedbackResponse env,
      getAllFeedbackResponses = FileStorage_getAllFeedbackResponses env\<rparr>"

section \<open>The route \<open>POST /api/generate-response\<close>\<close>

text \<open>
  The chain of eleven \<open>replace\<close> calls on the prompt template, in the order of the source.
\<close>

definition renderPrompt :: "FactConfiguration \<Rightarrow> string \<Rightarrow> string" where
  "renderPrompt config feedback =
     replace_global ''{Customer Todo List Facts}''
       (join '', '' (CustomerFacts.todoFacts (FactConfiguration.customerFacts config)))
     (replace_global ''{Restaurant Todo List Facts}''
       (join '', '' (RestaurantFacts.todoFacts (FactConfiguration.restaurantFacts config)))
     (replace_global ''{Customer Feedback Text}'' feedback
     (replace_global ''{Meal type}'' (meal (FactConfiguration.customerFacts config))
     (replace_global ''{Customer History}'' (history (FactConfiguration.customerFacts config))
     (replace_global ''{Gender}'' (gender (FactConfiguration.customerFacts config))
     (replace_global ''{Customer Name}''
       (CustomerFacts.name (FactConfiguration.customerFacts config))
     (replace_global ''{Brand tone}'' (brandTone (FactConfiguration.restaurantFacts config))
     (replace_global ''{Restaurant Type}'' (type (FactConfiguration.restaurantFacts config))
     (replace_global ''{Address}'' (address (FactConfiguration.restaurantFacts config))
     (replace_global ''{Restaurant Name}''
       (RestaurantFacts.name (FactConfiguration.restaurantFacts config))
       (promptTemplate (FactConfiguration.systemFacts config))))))))))))"

text \<open>The same chain as a table: each placeholder with its value, in the order of application.\<close>

definition substitutions :: "FactConfiguration \<Rightarrow> string \<Rightarrow> (string \<times> string) list" where
  "substitutions config feedback =
     [(''{Restaurant Name}'', RestaurantFacts.name (FactConfiguration.restaurantFacts config)),
      (''{Address}'', address (FactConfiguration.restaurantFacts config)),
      (''{Restaurant Type}'', type (FactConfiguration.restaurantFacts config)),
      (''{Brand tone}'', brandTone (FactConfiguration.restaurantFacts config)),
      (''{Customer Name}'', CustomerFacts.name (FactConfiguration.customerFacts config)),
      (''{Gender}'', gender (FactConfiguration.customerFacts config)),
      (''{Customer History}'', history (FactConfiguration.customerFacts config)),
      (''{Meal type}'', meal (FactConfiguration.customerFacts config)),
      (''{Customer Feedback Text}'', feedback),
      (''{Restaurant Todo List Facts}'',
         join '', '' (RestaurantFacts.todoFacts (FactConfiguration.restaurantFacts config))),
      (''{Customer Todo List Facts}'',
         join '', '' (CustomerFacts.todoFacts (FactConfiguration.customerFacts config)))]"

fun apply_substitutions :: "(string \<times> string) list \<Rightarrow> string \<Rightarrow> string" where
  "apply_substitutions [] s = s"
| "apply_substitutions ((p, v) # ps) s = apply_substitutions ps (replace_global p v s)"

text \<open>
  The body of the request: both fields may be missing; a feedback text that is given is a
  string, an identifier a number.
\<close>

record GenerateRequest =
  feedbackText :: "string option"
  configurationId :: "int option"

text \<open>
  What \<open>openai.chat.completions.create\<close> followed by \<open>completion.choices[0].message.content\<close>
  gives: an exception, or a content that may be \<open>null\<close>.
\<close>

datatype completion = CompletionThrows | CompletionContent "string option"

text \<open>
  What the handler sends: a status with a message, or the saved response with its
  analytics (\<open>wordCount\<close> and \<open>sentiment\<close>).
\<close>

datatype reply = Failure nat string | Generated FeedbackResponse nat string

text \<open>
  \<open>const config = configurationId ? await storage.getFactConfiguration(configurationId)
  : await storage.getLatestFactConfiguration()\<close>: an absent identifier and the number 0
  are falsy.
\<close>

definition requested_configuration ::
  "'s IStorage \<Rightarrow> GenerateRequest \<Rightarrow> 's \<Rightarrow> FactConfiguration option" where
  "requested_configuration storage body st =
     (case GenerateRequest.configurationId body of
        None \<Rightarrow> getLatestFactConfiguration storage st
      | Some i \<Rightarrow>
          if i \<noteq> 0 then getFactConfiguration storage i st
          else getLatestFactConfiguration storage st)"

text \<open>The prompt that goes to the service: the rendered template, then the length guidance.\<close>

definition full_prompt :: "FactConfiguration \<Rightarrow> string \<Rightarrow> string" where
  "full_prompt config feedback =
     appendLengthGuidance (renderPrompt config feedback)
       (responseLength (FactConfiguration.systemFacts config))"

text \<open>
  The handler, on the methods \<open>storage\<close> and the state \<open>st\<close> of the store.
  \<open>apiKeyConfigured\<close> is the outcome of the key check, \<open>create_completion\<close> the
  text-generation service, called with the prompt and \<open>max_tokens\<close>.
\<close>

definition generate_response ::
  "'s IStorage \<Rightarrow> bool \<Rightarrow> (string \<Rightarrow> nat \<Rightarrow> completion) \<Rightarrow> GenerateRequest \<Rightarrow> 's \<Rightarrow> reply \<times> 's" where
  "generate_response storage apiKeyConfigured create_completion body st =
     (case GenerateRequest.feedbackText body of
        None \<Rightarrow> (Failure 400 ''Feedback text is required'', st)
      | Some ft \<Rightarrow>
          if ft = [] then (Failure 400 ''Feedback text is required'', st)
          else
            (case requested_configuration storage body st of
               None \<Rightarrow> (Failure 404 ''Configuration not found'', st)
             | Some config \<Rightarrow>
                 (let prompt = full_prompt config ft
                  in if \<not> apiKeyConfigured
                     then (Failure 500 (''OpenAI API key not configured. ''
                             @ ''Please set the OPENAI_API_KEY environment variable.''), st)
                     else
                       (case create_completion prompt
                               (max_tokens (responseLength (FactConfiguration.systemFacts config))) of
                          CompletionThrows \<Rightarrow> (Failure 500 ''Failed to generate AI response'', st)
                        | CompletionContent None \<Rightarrow>
                            (Failure 500 ''Failed to generate response'', st)
                        | CompletionContent (Some ai) \<Rightarrow>
                            if ai = [] then (Failure 500 ''Failed to generate response'', st)
                            else
                              (case createFeedbackResponse storage
                                      \<lparr>InsertFeedbackResponse.feedbackText = ft,
                                       InsertFeedbackResponse.aiResponse = ai,
                                       InsertFeedbackResponse.configurationId =
                                         Some (FactConfiguration.ident config)\<rparr> st of
                                 (savedResponse, st') \<Rightarrow>
                                   (Generated savedResponse (wordCount ai) (sentiment ft),
                                    st'))))))"

section \<open>Vocabulary of the properties\<close>

subsection \<open>Placeholders\<close>

text \<open>The eleven placeholders, in the order in which the route replaces them.\<close>

definition placeholders :: "string list" where
  "placeholders =
     [''{Restaurant Name}'', ''{Address}'', ''{Restaurant Type}'', ''{Brand tone}'',
      ''{Customer Name}'', ''{Gender}'', ''{Customer History}'', ''{Meal type}'',
      ''{Customer Feedback Text}'', ''{Restaurant Todo List Facts}'',
      ''{Customer Todo List Facts}'']"

text \<open>
  The shape all of them have: an opening brace, a name without braces and dollar signs, a
  closing brace.
\<close>

definition is_placeholder :: "string \<Rightarrow> bool" where
  "is_placeholder p =
     (case p of
        [] \<Rightarrow> False
      | c # r \<Rightarrow>
          c = CHR ''{'' \<and> r \<noteq> [] \<and> last r = CHR ''}'' \<and>
          list_all (\<lambda>ch. ch \<noteq> CHR ''{'' \<and> ch \<noteq> CHR ''}'' \<and> ch \<noteq> CHR ''$'') (butlast r))"

text \<open>The default configuration with another prompt template.\<close>

definition template_configuration :: "string \<Rightarrow> FactConfiguration" where
  "template_configuration t =
     defaultConfiguration\<lparr>FactConfiguration.systemFacts :=
       (FactConfiguration.systemFacts defaultConfiguration)\<lparr>promptTemplate := t\<rparr>\<rparr>"

subsection \<open>Templates written as texts and placeholders\<close>

text \<open>
  A template as a list of segments: a text, or the placeholder number \<open>k\<close> (counted from
  0 in the order of application).
\<close>

datatype segment = Text string | Hole nat

fun segment_text :: "segment \<Rightarrow> string" where
  "segment_text (Text t) = t"
| "segment_text (Hole k) = placeholders ! k"

text \<open>The template that a list of segments writes.\<close>

definition flatten :: "segment list \<Rightarrow> string" where
  "flatten segs = concat (map segment_text segs)"

text \<open>The template with the value number \<open>k\<close> in the place of each placeholder number \<open>k\<close>.\<close>

fun filled :: "string list \<Rightarrow> segment \<Rightarrow> string" where
  "filled vals (Text t) = t"
| "filled vals (Hole k) = vals ! k"

definition fill :: "string list \<Rightarrow> segment list \<Rightarrow> string" where
  "fill vals segs = concat (map (filled vals) segs)"

text \<open>A value without an opening brace and without a dollar sign.\<close>

definition plain :: "string \<Rightarrow> bool" where
  "plain s \<longleftrightarrow> CHR ''{'' \<notin> set s \<and> CHR ''$'' \<notin> set s"

text \<open>
  A segment fits the values: a text has no opening brace, a placeholder is one of the
  eleven and its value is plain.
\<close>

fun fits :: "string list \<Rightarrow> segment \<Rightarrow> bool" where
  "fits vals (Text t) = (CHR ''{'' \<notin> set t)"
| "fits vals (Hole k) = (k < length placeholders \<and> plain (vals ! k))"

text \<open>What the proofs say of the prompt between two replacements.\<close>

fun wf_segment :: "segment \<Rightarrow> bool" where
  "wf_segment (Text t) = (CHR ''{'' \<notin> set t)"
| "wf_segment (Hole k) = (k < length placeholders)"

fun fill_below :: "nat \<Rightarrow> string list \<Rightarrow> segment \<Rightarrow> segment" where
  "fill_below k vals (Text t) = Text t"
| "fill_below k vals (Hole m) = (if m < k then Text (vals ! m) else Hole m)"

fun replaced :: "nat \<Rightarrow> string \<Rightarrow> segment \<Rightarrow> string" where
  "replaced k v (Text t) = t"
| "replaced k v (Hole m) = (if m = k then v else placeholders ! m)"


subsection \<open>Stores\<close>




text \<open>Every call of the sequence reads and writes its file without an error.\<close>

definition all_io_ok :: "(io \<times> store_call) list \<Rightarrow> bool" where
  "all_io_ok cs = list_all (\<lambda>c. readFile_ok (fst c) \<and> writeFile_ok (fst c)) cs"



text \<open>What the configuration file holds.\<close>

definition stored_configurations :: "FileSystem \<Rightarrow> FactConfiguration list" where
  "stored_configurations fs = (case configFile fs of None \<Rightarrow> [] | Some d \<Rightarrow> configs d)"

definition config_next :: "FileSystem \<Rightarrow> int" where
  "config_next fs = (case configFile fs of None \<Rightarrow> 1 | Some d \<Rightarrow> ConfigurationsData.nextId d)"

definition response_next :: "FileSystem \<Rightarrow> int" where
  "response_next fs = (case responsesFile fs of None \<Rightarrow> 1 | Some d \<Rightarrow> ResponsesData.nextId d)"



subsection \<open>Concrete inputs\<close>

text \<open>Two configurations and two responses, created in turn.\<close>

definition two_creates :: "store_call list" where
  "two_creates =
     [CreateFactConfiguration defaultFacts,
      CreateFeedbackResponse
        \<lparr>InsertFeedbackResponse.feedbackText = ''Great food!'',
         InsertFeedbackResponse.aiResponse = ''Thank you!'',
         InsertFeedbackResponse.configurationId = Some 1\<rparr>,
      CreateFactConfiguration defaultFacts,
      CreateFeedbackResponse
        \<lparr>InsertFeedbackResponse.feedbackText = ''Bad food!'',
         InsertFeedbackResponse.aiResponse = ''Sorry!'',
         InsertFeedbackResponse.configurationId = Some 2\<rparr>]"


text \<open>A response payload without \<open>configurationId\<close>.\<close>

definition feedback_without_configuration :: InsertFeedbackResponse where
  "feedback_without_configuration =
     \<lparr>InsertFeedbackResponse.feedbackText = ''Great food!'',
      InsertFeedbackResponse.aiResponse = ''Thank you!'',
      InsertFeedbackResponse.configurationId = None\<rparr>"

definition empty_request :: GenerateRequest where
  "empty_request = \<lparr>GenerateRequest.feedbackText = Some [], GenerateRequest.configurationId = None\<rparr>"

definition great_food_request :: GenerateRequest where
  "great_food_request =
     \<lparr>GenerateRequest.feedbackText = Some ''Great food!'', GenerateRequest.configurationId = None\<rparr>"

text \<open>A text-generation service that answers with no content.\<close>

definition no_content :: "string \<Rightarrow> nat \<Rightarrow> completion" where
  "no_content prompt n = CompletionContent None"


section \<open>Length policy\<close>

lemma lengthInstruction_short:
  "lengthInstruction ''short'' = ''Keep the response concise, around 2-3 sentences.''"
  by (simp add: lengthInstruction_def lengthGuidance_def js_or_def)

lemma lengthInstruction_medium:
  "lengthInstruction ''medium'' = ''Provide a moderate length response, around 3-4 paragraphs.''"
  by (simp add: lengthInstruction_def lengthGuidance_def js_or_def)

lemma lengthInstruction_detailed:
  "lengthInstruction ''detailed'' = ''Provide a comprehensive response with detailed explanations.''"
  by (simp add: lengthInstruction_def lengthGuidance_def js_or_def)

text \<open>
  A value that is neither one of the three names nor the name of a property of
  \<open>Object.prototype\<close> gets the instruction of \<open>medium\<close>.
\<close>

lemma lengthInstruction_fallback:
  "Object_prototype_get rl = JSUndefined \<Longrightarrow> rl \<noteq> ''short'' \<Longrightarrow> rl \<noteq> ''detailed'' \<Longrightarrow>
   lengthInstruction rl = lengthInstruction ''medium''"
  by (simp add: lengthInstruction_def lengthGuidance_def js_or_def)

lemma max_tokens_table:
  "max_tokens ''short'' = 200" "max_tokens ''medium'' = 500" "max_tokens ''detailed'' = 1000"
  "rl \<noteq> ''short'' \<Longrightarrow> rl \<noteq> ''detailed'' \<Longrightarrow> max_tokens rl = 500"
  by (simp_all add: max_tokens_def)

lemma appendLengthGuidance_blank_line:
  "appendLengthGuidance prompt rl = prompt @ [CHR 0x0A] @ [CHR 0x0A] @ lengthInstruction rl"
  by (simp add: appendLengthGuidance_def)

text \<open>
  C5 (length policy: short, medium and detailed have their instruction and budget, and
  every other value behaves as medium). For the response length \<open>constructor\<close> the read
  \<open>lengthGuidance[responseLength]\<close> finds the inherited function \<open>Object\<close>, which is
  truthy: the fallback to the medium instruction is not taken and the text of that function
  is appended instead, while the token budget is the one of medium.
\<close>

theorem length_policy_constructor:
  "lengthInstruction ''constructor'' = ''function Object() { [native code] }'' \<and>
   lengthInstruction ''constructor'' \<noteq> lengthInstruction ''medium'' \<and>
   max_tokens ''constructor'' = max_tokens ''medium''"
  by (simp add: lengthInstruction_def lengthGuidance_def js_or_def Object_prototype_get_def
      max_tokens_def)

section \<open>Sentiment\<close>

text \<open>
  Lowering a character gives a letter that lowering leaves as it is exactly for this letter
  and for its capital.
\<close>

lemma toLowerChar_eq_iff:
  assumes "toLowerChar k = k"
  shows "toLowerChar c = k \<longleftrightarrow> same_letter k c"
proof -
  have kc: "(of_char (char_of (n + 32) :: char) :: nat) = n + 32" if "n + 32 < 256" for n :: nat
    using that by simp
  show ?thesis
  proof (cases "(65 \<le> (of_char c :: nat) \<and> (of_char c :: nat) \<le> 90) \<or>
      (192 \<le> (of_char c :: nat) \<and> (of_char c :: nat) \<le> 222 \<and> (of_char c :: nat) \<noteq> 215)")
    case True
    then have lc: "toLowerChar c = char_of ((of_char c :: nat) + 32)"
      by (simp add: toLowerChar_def Let_def)
    from True have b: "(of_char c :: nat) + 32 < 256" by auto
    have "toLowerChar c = k \<longleftrightarrow> (of_char c :: nat) + 32 = of_char k"
    proof
      assume "toLowerChar c = k"
      with lc have "(of_char k :: nat) = of_char (char_of ((of_char c :: nat) + 32) :: char)" by simp
      with kc [OF b] show "(of_char c :: nat) + 32 = of_char k" by simp
    next
      assume e: "(of_char c :: nat) + 32 = of_char k"
      then have "char_of ((of_char c :: nat) + 32) = (char_of (of_char k :: nat) :: char)" by simp
      with lc show "toLowerChar c = k" by simp
    qed
    moreover have "(of_char c :: nat) + 32 = of_char k \<Longrightarrow> is_small_letter k"
      using True by (auto simp: is_small_letter_def Let_def)
    moreover have "c \<noteq> k"
    proof
      assume "c = k"
      with assms lc have "(of_char k :: nat) = of_char (char_of ((of_char k :: nat) + 32) :: char)"
        by simp
      with kc [of "of_char k"] b \<open>c = k\<close> show False by simp
    qed
    ultimately show ?thesis by (auto simp: same_letter_def)
  next
    case False
    then have lc: "toLowerChar c = c" by (auto simp: toLowerChar_def Let_def)
    have "\<not> (is_small_letter k \<and> (of_char c :: nat) + 32 = of_char k)"
      using False by (auto simp: is_small_letter_def Let_def)
    with lc show ?thesis by (auto simp: same_letter_def)
  qed
qed

lemma ci_prefix_lower:
  "map toLowerChar kw = kw \<Longrightarrow> ci_prefix kw s = prefix kw (toLowerCase s)"
proof (induction kw s rule: ci_prefix.induct)
  case (3 k ks c cs)
  from "3.prems" have k: "toLowerChar k = k" and ks: "map toLowerChar ks = ks" by simp_all
  from toLowerChar_eq_iff [OF k, of c] have "same_letter k c \<longleftrightarrow> k = toLowerChar c" by auto
  with "3.IH" [OF ks] show ?case by (simp add: toLowerCase_def)
qed (simp_all add: toLowerCase_def)

lemma ci_contains_lower:
  "map toLowerChar kw = kw \<Longrightarrow> ci_contains s kw = string_includes (toLowerCase s) kw"
proof (induction s)
  case Nil
  then show ?case by (simp add: toLowerCase_def)
next
  case (Cons c cs)
  from Cons.prems have "ci_prefix kw (c # cs) = prefix kw (toLowerCase (c # cs))"
    by (rule ci_prefix_lower)
  with Cons show ?case by (simp add: toLowerCase_def)
qed

lemma keywords_lower:
  "map toLowerChar ''great'' = ''great''"
  "map toLowerChar ''excellent'' = ''excellent''"
  "map toLowerChar ''amazing'' = ''amazing''"
  "map toLowerChar ''wonderful'' = ''wonderful''"
  "map toLowerChar ''outstanding'' = ''outstanding''"
  "map toLowerChar ''bad'' = ''bad''"
  "map toLowerChar ''terrible'' = ''terrible''"
  "map toLowerChar ''awful'' = ''awful''"
  "map toLowerChar ''horrible'' = ''horrible''"
  by code_simp+

text \<open>
  C6 (sentiment): the sentiment of a feedback text is Positive when the text contains one
  of great, excellent, amazing, wonderful, outstanding in any case; otherwise Negative when
  it contains one of bad, terrible, awful, horrible in any case; otherwise Neutral. The
  positive keywords are looked at first, so a text with keywords of both kinds is Positive.
\<close>

theorem sentiment_keywords:
  "sentiment ft =
     (if ci_contains ft ''great'' \<or> ci_contains ft ''excellent'' \<or> ci_contains ft ''amazing'' \<or>
         ci_contains ft ''wonderful'' \<or> ci_contains ft ''outstanding'' then ''Positive''
      else if ci_contains ft ''bad'' \<or> ci_contains ft ''terrible'' \<or> ci_contains ft ''awful'' \<or>
         ci_contains ft ''horrible'' then ''Negative''
      else ''Neutral'')"
  unfolding sentiment_def
  by (simp only: ci_contains_lower [OF keywords_lower(1)]
      ci_contains_lower [OF keywords_lower(2)] ci_contains_lower [OF keywords_lower(3)]
      ci_contains_lower [OF keywords_lower(4)] ci_contains_lower [OF keywords_lower(5)]
      ci_contains_lower [OF keywords_lower(6)] ci_contains_lower [OF keywords_lower(7)]
      ci_contains_lower [OF keywords_lower(8)] ci_contains_lower [OF keywords_lower(9)])

theorem sentiment_keywords_witness:
  "ci_contains ''This was GREAT but also terrible'' ''great'' \<and>
   ci_contains ''This was GREAT but also terrible'' ''terrible'' \<and>
   sentiment ''This was GREAT but also terrible'' = ''Positive''"
proof -
  have g: "ci_contains ''This was GREAT but also terrible'' ''great''" by code_simp
  have t: "ci_contains ''This was GREAT but also terrible'' ''terrible''" by code_simp
  from g t sentiment_keywords [of "''This was GREAT but also terrible''"] show ?thesis by simp
qed

lemma sentiment_examples:
  "sentiment ''This was great but also terrible'' = ''Positive''"
  "sentiment ''Service was awful'' = ''Negative''"
  "sentiment ''We visited Tuesday'' = ''Neutral''"
  by code_simp+

section \<open>Word count\<close>

lemma tokens_go_dropWhile: "tokens_go [] (dropWhile isWhiteSpace s) = tokens_go [] s"
  by (induction s) simp_all

text \<open>The tokens of a text are the pieces of the split that are not empty.\<close>

lemma filter_split_ws_go: "filter (\<lambda>p. p \<noteq> []) (split_ws_go cur s) = tokens_go cur s"
  by (induction cur s rule: split_ws_go.induct) (simp_all add: tokens_go_dropWhile)

lemma split_ws_go_nonempty:
  "(cur \<noteq> [] \<or> (s \<noteq> [] \<and> \<not> isWhiteSpace (hd s))) \<Longrightarrow> (s = [] \<or> \<not> isWhiteSpace (last s)) \<Longrightarrow>
   [] \<notin> set (split_ws_go cur s)"
proof (induction cur s rule: split_ws_go.induct)
  case (1 cur)
  then show ?case by simp
next
  case (2 cur c cs)
  show ?case
  proof (cases "isWhiteSpace c")
    case True
    with 2 have cur: "cur \<noteq> []" by simp
    from True 2 have cs: "cs \<noteq> []" "\<not> isWhiteSpace (last cs)" by (auto split: if_splits)
    have d: "dropWhile isWhiteSpace cs \<noteq> []" using cs
      by (metis dropWhile_eq_Nil_conv last_in_set)
    have h: "\<not> isWhiteSpace (hd (dropWhile isWhiteSpace cs))" using d by (simp add: hd_dropWhile)
    have l: "last (dropWhile isWhiteSpace cs) = last cs" using d
      by (metis last_appendR takeWhile_dropWhile_id)
    from 2(1)[OF True] d h l cs have "[] \<notin> set (split_ws_go [] (dropWhile isWhiteSpace cs))" by simp
    with True cur show ?thesis by simp
  next
    case False
    with 2 have "[] \<notin> set (split_ws_go (cur @ [c]) cs)" by (auto split: if_splits)
    with False show ?thesis by simp
  qed
qed

text \<open>
  On a text that neither starts nor ends with white space the word count of the route is
  the number of tokens.
\<close>

lemma wordCount_trimmed:
  assumes "s \<noteq> []" "\<not> isWhiteSpace (hd s)" "\<not> isWhiteSpace (last s)"
  shows "wordCount s = length (whitespace_tokens s)"
proof -
  from assms have "[] \<notin> set (split_ws_go [] s)" by (intro split_ws_go_nonempty) simp_all
  then have "filter (\<lambda>p. p \<noteq> []) (split_ws_go [] s) = split_ws_go [] s"
    by (induction "split_ws_go [] s") (auto simp: filter_id_conv)
  then show ?thesis
    by (simp add: wordCount_def split_ws_def whitespace_tokens_def flip: filter_split_ws_go)
qed

text \<open>
  C7 (the word count of the analytics is the number of white-space-delimited tokens of the
  generated text). On a generated text that ends with a line break the split leaves an
  empty piece behind the last word, and the route counts it: two tokens, word count 3.
\<close>

theorem wordCount_trailing_newline:
  "wordCount ''Thank you!\<newline>'' = 3 \<and> length (whitespace_tokens ''Thank you!\<newline>'') = 2"
  by code_simp


section \<open>Stores\<close>

text \<open>The definitions that evaluate a call on a concrete store.\<close>

lemmas fs_eval = FileStorage_new_def ensureDataDirectory_def io_ok_def no_files_def
  FileStorage_createFactConfiguration_def FileStorage_createFeedbackResponse_def
  FileStorage_updateFactConfiguration_def FileStorage_getFactConfiguration_def
  FileStorage_getLatestFactConfiguration_def
  readConfigurations_def writeConfigurations_def readResponses_def writeResponses_def
  defaultConfig_def defaultResponses_def

lemmas mem_eval = MemStorage_new_def MemStorage_empty_def Let_def
  MemStorage_createFactConfiguration_def MemStorage_createFeedbackResponse_def
  MemStorage_updateFactConfiguration_def MemStorage_getFactConfiguration_def
  MemStorage_getLatestFactConfiguration_def MemStorage_getFeedbackResponse_def
  Map_keys_def Map_values_def Map_size_def

subsection \<open>Maps\<close>



lemma Map_keys_set_new:
  "k \<notin> set (Map_keys m) \<Longrightarrow> Map_keys (Map_set k v m) = Map_keys m @ [k]"
  by (induction m) (auto simp: Map_keys_def)




lemma set_Map_set: "set (Map_set k v m) \<subseteq> insert (k, v) (set m)"
  by (induction m) (auto split: if_splits)



subsection \<open>The in-memory store keeps its invariant\<close>







lemma mem_call_counters:
  "currentConfigId st \<le> currentConfigId (snd (MemStorage_call c st)) \<and>
   currentResponseId st \<le> currentResponseId (snd (MemStorage_call c st))"
  by (cases c) (auto simp: MemStorage_createFactConfiguration_def Let_def
      MemStorage_updateFactConfiguration_def MemStorage_createFeedbackResponse_def
      split: option.splits)

lemma mem_call_created_config:
  "MemStorage_call c st = (CreatedFactConfiguration x, st') \<Longrightarrow>
   FactConfiguration.ident x = currentConfigId st \<and> currentConfigId st' = currentConfigId st + 1"
  by (cases c) (auto simp: MemStorage_createFactConfiguration_def Let_def split: prod.splits)

lemma mem_call_created_response:
  "MemStorage_call c st = (CreatedFeedbackResponse x, st') \<Longrightarrow>
   FeedbackResponse.ident x = currentResponseId st \<and> currentResponseId st' = currentResponseId st + 1"
  by (cases c) (auto simp: MemStorage_createFeedbackResponse_def Let_def split: prod.splits)

lemma mem_calls_config_ids:
  "sorted_wrt (<) (created_configuration_ids (fst (MemStorage_calls cs st))) \<and>
   list_all (\<lambda>i. currentConfigId st \<le> i) (created_configuration_ids (fst (MemStorage_calls cs st)))"
proof (induction cs arbitrary: st)
  case Nil
  then show ?case by simp
next
  case (Cons c cs)
  obtain r st' where c: "MemStorage_call c st = (r, st')" by (cases "MemStorage_call c st")
  obtain rs st'' where cs: "MemStorage_calls cs st' = (rs, st'')" by (cases "MemStorage_calls cs st'")
  from Cons.IH [of st'] cs have ih: "sorted_wrt (<) (created_configuration_ids rs)"
    "list_all (\<lambda>i. currentConfigId st' \<le> i) (created_configuration_ids rs)" by simp_all
  from mem_call_counters [of st c] c have le: "currentConfigId st \<le> currentConfigId st'" by simp
  show ?case
  proof (cases r)
    case (CreatedFactConfiguration x)
    with c mem_call_created_config have "FactConfiguration.ident x = currentConfigId st"
      "currentConfigId st' = currentConfigId st + 1" by blast+
    with ih c cs CreatedFactConfiguration show ?thesis by (auto simp: list_all_iff)
  next
    case (UpdatedFactConfiguration x)
    with ih c cs le show ?thesis by (auto simp: list_all_iff)
  next
    case (CreatedFeedbackResponse x)
    with ih c cs le show ?thesis by (auto simp: list_all_iff)
  qed
qed

lemma mem_calls_response_ids:
  "sorted_wrt (<) (created_response_ids (fst (MemStorage_calls cs st))) \<and>
   list_all (\<lambda>i. currentResponseId st \<le> i) (created_response_ids (fst (MemStorage_calls cs st)))"
proof (induction cs arbitrary: st)
  case Nil
  then show ?case by simp
next
  case (Cons c cs)
  obtain r st' where c: "MemStorage_call c st = (r, st')" by (cases "MemStorage_call c st")
  obtain rs st'' where cs: "MemStorage_calls cs st' = (rs, st'')" by (cases "MemStorage_calls cs st'")
  from Cons.IH [of st'] cs have ih: "sorted_wrt (<) (created_response_ids rs)"
    "list_all (\<lambda>i. currentResponseId st' \<le> i) (created_response_ids rs)" by simp_all
  from mem_call_counters [of st c] c have le: "currentResponseId st \<le> currentResponseId st'" by simp
  show ?case
  proof (cases r)
    case (CreatedFeedbackResponse x)
    with c mem_call_created_response have "FeedbackResponse.ident x = currentResponseId st"
      "currentResponseId st' = currentResponseId st + 1" by blast+
    with ih c cs CreatedFeedbackResponse show ?thesis by (auto simp: list_all_iff)
  next
    case (UpdatedFactConfiguration x)
    with ih c cs le show ?thesis by (auto simp: list_all_iff)
  next
    case (CreatedFactConfiguration x)
    with ih c cs le show ?thesis by (auto simp: list_all_iff)
  qed
qed

subsection \<open>find and findIndex\<close>





subsection \<open>The file-backed store keeps its invariant\<close>














subsection \<open>Identifiers handed out by create\<close>

lemma read_ok_config_next:
  "readFile_ok env \<Longrightarrow> ConfigurationsData.nextId (readConfigurations env fs) = config_next fs"
  by (simp add: readConfigurations_def config_next_def split: option.splits)

lemma read_ok_response_next:
  "readFile_ok env \<Longrightarrow> ResponsesData.nextId (readResponses env fs) = response_next fs"
  by (simp add: readResponses_def response_next_def split: option.splits)

lemma fs_call_ok_nexts:
  "readFile_ok env \<Longrightarrow> writeFile_ok env \<Longrightarrow>
   config_next fs \<le> config_next (snd (FileStorage_call (env, k) fs)) \<and>
   response_next fs \<le> response_next (snd (FileStorage_call (env, k) fs))"
  by (cases k)
    (auto simp: FileStorage_createFactConfiguration_def FileStorage_updateFactConfiguration_def
      FileStorage_createFeedbackResponse_def Let_def writeConfigurations_def writeResponses_def
      read_ok_config_next read_ok_response_next config_next_def response_next_def
      split: option.splits)

lemma fs_call_ok_created_config:
  "readFile_ok env \<Longrightarrow> writeFile_ok env \<Longrightarrow>
   FileStorage_call (env, k) fs = (CreatedFactConfiguration x, fs') \<Longrightarrow>
   FactConfiguration.ident x = config_next fs \<and> config_next fs' = config_next fs + 1"
  by (cases k)
    (auto simp: FileStorage_createFactConfiguration_def Let_def writeConfigurations_def
      read_ok_config_next config_next_def split: prod.splits option.splits)

lemma fs_call_ok_created_response:
  "readFile_ok env \<Longrightarrow> writeFile_ok env \<Longrightarrow>
   FileStorage_call (env, k) fs = (CreatedFeedbackResponse x, fs') \<Longrightarrow>
   FeedbackResponse.ident x = response_next fs \<and> response_next fs' = response_next fs + 1"
  by (cases k)
    (auto simp: FileStorage_createFeedbackResponse_def Let_def writeResponses_def
      read_ok_response_next response_next_def split: prod.splits option.splits)

lemma fs_calls_config_ids:
  "all_io_ok cs \<Longrightarrow>
   sorted_wrt (<) (created_configuration_ids (fst (FileStorage_calls cs fs))) \<and>
   list_all (\<lambda>i. config_next fs \<le> i) (created_configuration_ids (fst (FileStorage_calls cs fs)))"
proof (induction cs arbitrary: fs)
  case Nil
  then show ?case by simp
next
  case (Cons c cs)
  obtain env k where ek: "c = (env, k)" by (cases c)
  from Cons.prems ek have ok: "readFile_ok env" "writeFile_ok env" "all_io_ok cs"
    by (simp_all add: all_io_ok_def)
  obtain r fs' where c: "FileStorage_call (env, k) fs = (r, fs')"
    by (cases "FileStorage_call (env, k) fs")
  obtain rs fs'' where cs: "FileStorage_calls cs fs' = (rs, fs'')"
    by (cases "FileStorage_calls cs fs'")
  from Cons.IH [OF ok(3), of fs'] cs have ih: "sorted_wrt (<) (created_configuration_ids rs)"
    "list_all (\<lambda>i. config_next fs' \<le> i) (created_configuration_ids rs)" by simp_all
  from fs_call_ok_nexts [OF ok(1,2), of fs k] c have le: "config_next fs \<le> config_next fs'" by simp
  show ?case
  proof (cases r)
    case (CreatedFactConfiguration x)
    with c fs_call_ok_created_config [OF ok(1,2)] have "FactConfiguration.ident x = config_next fs"
      "config_next fs' = config_next fs + 1" by blast+
    with ih c cs ek CreatedFactConfiguration show ?thesis by (auto simp: list_all_iff)
  next
    case (UpdatedFactConfiguration x)
    with ih c cs ek le show ?thesis by (auto simp: list_all_iff)
  next
    case (CreatedFeedbackResponse x)
    with ih c cs ek le show ?thesis by (auto simp: list_all_iff)
  qed
qed

lemma fs_calls_response_ids:
  "all_io_ok cs \<Longrightarrow>
   sorted_wrt (<) (created_response_ids (fst (FileStorage_calls cs fs))) \<and>
   list_all (\<lambda>i. response_next fs \<le> i) (created_response_ids (fst (FileStorage_calls cs fs)))"
proof (induction cs arbitrary: fs)
  case Nil
  then show ?case by simp
next
  case (Cons c cs)
  obtain env k where ek: "c = (env, k)" by (cases c)
  from Cons.prems ek have ok: "readFile_ok env" "writeFile_ok env" "all_io_ok cs"
    by (simp_all add: all_io_ok_def)
  obtain r fs' where c: "FileStorage_call (env, k) fs = (r, fs')"
    by (cases "FileStorage_call (env, k) fs")
  obtain rs fs'' where cs: "FileStorage_calls cs fs' = (rs, fs'')"
    by (cases "FileStorage_calls cs fs'")
  from Cons.IH [OF ok(3), of fs'] cs have ih: "sorted_wrt (<) (created_response_ids rs)"
    "list_all (\<lambda>i. response_next fs' \<le> i) (created_response_ids rs)" by simp_all
  from fs_call_ok_nexts [OF ok(1,2), of fs k] c have le: "response_next fs \<le> response_next fs'" by simp
  show ?case
  proof (cases r)
    case (CreatedFeedbackResponse x)
    with c fs_call_ok_created_response [OF ok(1,2)] have "FeedbackResponse.ident x = response_next fs"
      "response_next fs' = response_next fs + 1" by blast+
    with ih c cs ek CreatedFeedbackResponse show ?thesis by (auto simp: list_all_iff)
  next
    case (UpdatedFactConfiguration x)
    with ih c cs ek le show ?thesis by (auto simp: list_all_iff)
  next
    case (CreatedFactConfiguration x)
    with ih c cs ek le show ?thesis by (auto simp: list_all_iff)
  qed
qed

lemma MemStorage_new_eq:
  "currentConfigId MemStorage_new = 2 \<and> currentResponseId MemStorage_new = 1 \<and>
   Map_keys (factConfigs MemStorage_new) = [1] \<and> feedbackResp MemStorage_new = []"
  by (simp add: MemStorage_new_def MemStorage_createFactConfiguration_def MemStorage_empty_def
      Let_def Map_keys_def)

lemma FileStorage_fresh_eq:
  "config_next (FileStorage_new io_ok no_files) = 2 \<and>
   response_next (FileStorage_new io_ok no_files) = 1 \<and>
   map FactConfiguration.ident (stored_configurations (FileStorage_new io_ok no_files)) = [1] \<and>
   responsesFile (FileStorage_new io_ok no_files) = Some defaultResponses"
  by (simp add: FileStorage_new_def ensureDataDirectory_def io_ok_def no_files_def Let_def
      config_next_def response_next_def stored_configurations_def defaultConfig_def
      defaultConfiguration_def defaultResponses_def)

text \<open>
  C3, as amended (identifiers handed out by create). On the in-memory store, as its
  constructor leaves it, the create calls of any sequence of calls hand out strictly
  increasing identifiers: those of the configurations all above the 1 of the seeded
  configuration, and those of the responses. On the file-backed store, started on an empty
  data directory, the same holds of every sequence of calls in which each read and each
  write of the files succeeds. Strictly increasing identifiers are pairwise different:
  none is handed out twice.
\<close>

theorem create_identifiers_increasing:
  "sorted_wrt (<) (1 # created_configuration_ids (fst (MemStorage_calls cs MemStorage_new))) \<and>
   distinct (1 # created_configuration_ids (fst (MemStorage_calls cs MemStorage_new))) \<and>
   sorted_wrt (<) (created_response_ids (fst (MemStorage_calls cs MemStorage_new))) \<and>
   distinct (created_response_ids (fst (MemStorage_calls cs MemStorage_new))) \<and>
   (all_io_ok fcs \<longrightarrow>
      sorted_wrt (<) (1 # created_configuration_ids
         (fst (FileStorage_calls fcs (FileStorage_new io_ok no_files)))) \<and>
      distinct (1 # created_configuration_ids
         (fst (FileStorage_calls fcs (FileStorage_new io_ok no_files)))) \<and>
      sorted_wrt (<) (created_response_ids
         (fst (FileStorage_calls fcs (FileStorage_new io_ok no_files)))) \<and>
      distinct (created_response_ids
         (fst (FileStorage_calls fcs (FileStorage_new io_ok no_files)))))"
proof -
  let ?m = "fst (MemStorage_calls cs MemStorage_new)"
  let ?f = "fst (FileStorage_calls fcs (FileStorage_new io_ok no_files))"
  from mem_calls_config_ids [of cs MemStorage_new] MemStorage_new_eq
  have m1: "sorted_wrt (<) (1 # created_configuration_ids ?m)"
    by (auto simp: list_all_iff)
  from mem_calls_response_ids [of cs MemStorage_new]
  have m2: "sorted_wrt (<) (created_response_ids ?m)"
    by simp
  have f: "sorted_wrt (<) (1 # created_configuration_ids ?f) \<and>
      sorted_wrt (<) (created_response_ids ?f)" if ok: "all_io_ok fcs"
    using fs_calls_config_ids [OF ok, of "FileStorage_new io_ok no_files"]
      fs_calls_response_ids [OF ok, of "FileStorage_new io_ok no_files"] FileStorage_fresh_eq
    by (auto simp: list_all_iff)
  have d: "sorted_wrt (<) xs \<Longrightarrow> distinct xs" for xs :: "int list"
    by (simp add: strict_sorted_iff)
  from m1 m2 f d [of "1 # created_configuration_ids ?m"] d [of "created_response_ids ?m"]
    d [of "1 # created_configuration_ids ?f"] d [of "created_response_ids ?f"]
  show ?thesis by blast
qed

lemma file_two:
  "created_configuration_ids
     (fst (FileStorage_calls (map (Pair io_ok) two_creates) (FileStorage_new io_ok no_files)))
     = [2, 3]"
  "created_response_ids
     (fst (FileStorage_calls (map (Pair io_ok) two_creates) (FileStorage_new io_ok no_files)))
     = [1, 2]"
  by (simp_all add: two_creates_def fs_eval Let_def)

text \<open>Two configurations and two responses created on the fresh file-backed store.\<close>

theorem create_identifiers_increasing_witness:
  "all_io_ok (map (Pair io_ok) two_creates) \<and>
   created_configuration_ids
     (fst (FileStorage_calls (map (Pair io_ok) two_creates) (FileStorage_new io_ok no_files)))
     = [2, 3] \<and>
   created_response_ids
     (fst (FileStorage_calls (map (Pair io_ok) two_creates) (FileStorage_new io_ok no_files)))
     = [1, 2] \<and>
   sorted_wrt (<) (1 # created_configuration_ids
     (fst (FileStorage_calls (map (Pair io_ok) two_creates) (FileStorage_new io_ok no_files)))) \<and>
   sorted_wrt (<) (created_response_ids
     (fst (FileStorage_calls (map (Pair io_ok) two_creates) (FileStorage_new io_ok no_files))))"
proof -
  have ok: "all_io_ok (map (Pair io_ok) two_creates)"
    by (simp add: all_io_ok_def two_creates_def io_ok_def)
  with create_identifiers_increasing [of "[]" "map (Pair io_ok) two_creates"] file_two
  show ?thesis by blast
qed

text \<open>
  C3 as stated fails on the file-backed store: \<open>writeConfigurations\<close> catches the error of
  a write and only logs it, so a create whose write fails returns its identifier with
  nothing stored, and the next create reads the same \<open>nextId\<close>. Two creates in sequence
  both get the identifier 2.
\<close>

theorem create_identifier_reused_after_failed_write:
  "created_configuration_ids (fst (FileStorage_calls
      [(\<lparr>readFile_ok = True, writeFile_ok = False\<rparr>, CreateFactConfiguration defaultFacts),
       (io_ok, CreateFactConfiguration defaultFacts)]
      (FileStorage_new io_ok no_files))) = [2, 2]"
  by (simp add: FileStorage_new_def ensureDataDirectory_def io_ok_def no_files_def Let_def
      FileStorage_createFactConfiguration_def 
      readConfigurations_def writeConfigurations_def defaultConfig_def)

subsection \<open>The latest configuration\<close>







subsection \<open>Update in place\<close>








subsection \<open>The configuration of a response\<close>

text \<open>
  The in-memory store copies \<open>configurationId\<close> as the payload has it; the file-backed
  store puts 1 where it is absent.
\<close>

lemma mem_create_response_configurationId:
  "FeedbackResponse.configurationId (fst (MemStorage_createFeedbackResponse r st)) =
   InsertFeedbackResponse.configurationId r"
  by (simp add: MemStorage_createFeedbackResponse_def Let_def)

lemma file_create_response_configurationId:
  "FeedbackResponse.configurationId (fst (FileStorage_createFeedbackResponse env r fs)) =
   Some (case InsertFeedbackResponse.configurationId r of
           None \<Rightarrow> 1 | Some n \<Rightarrow> if n \<noteq> 0 then n else 1)"
  by (simp add: FileStorage_createFeedbackResponse_def Let_def split: option.splits)

text \<open>
  C9 (a response payload without \<open>configurationId\<close> is stored with a fallback value, in
  both stores). The in-memory store has no fallback: for such a payload the response it
  returns, and stores, has no \<open>configurationId\<close>. The file-backed store stores 1.
\<close>

theorem mem_create_response_without_configuration:
  "InsertFeedbackResponse.configurationId feedback_without_configuration = None \<and>
   FeedbackResponse.configurationId
     (fst (MemStorage_createFeedbackResponse feedback_without_configuration MemStorage_new)) = None \<and>
   map_option FeedbackResponse.configurationId
     (MemStorage_getFeedbackResponse 1
        (snd (MemStorage_createFeedbackResponse feedback_without_configuration MemStorage_new)))
     = Some None \<and>
   FeedbackResponse.configurationId
     (fst (FileStorage_createFeedbackResponse io_ok feedback_without_configuration
        (FileStorage_new io_ok no_files))) = Some 1"
  by (simp add: mem_eval fs_eval feedback_without_configuration_def)

section \<open>Failures of generate-response\<close>

lemma generate_response_empty_feedback:
  "GenerateRequest.feedbackText body = None \<or> GenerateRequest.feedbackText body = Some [] \<Longrightarrow>
   generate_response storage k cc body st = (Failure 400 ''Feedback text is required'', st)"
  by (auto simp: generate_response_def)

lemma generate_response_empty_content:
  assumes "GenerateRequest.feedbackText body = Some ft" "ft \<noteq> []"
    and "requested_configuration storage body st = Some config"
    and "k"
    and "cc (full_prompt config ft) (max_tokens (responseLength (FactConfiguration.systemFacts config)))
           = CompletionContent c"
    and "c = None \<or> c = Some []"
  shows "generate_response storage k cc body st = (Failure 500 ''Failed to generate response'', st)"
  using assms by (auto simp: generate_response_def Let_def)

text \<open>With a feedback text that is a string, no failure of the handler changes the store.\<close>

lemma generate_response_failure_keeps_store:
  "fst (generate_response storage k cc body st) = Failure s m \<Longrightarrow>
   snd (generate_response storage k cc body st) = st"
  by (auto simp: generate_response_def Let_def
      split: option.splits if_splits completion.splits prod.splits)

text \<open>
  C2 (failures of generate-response). On either store: when the feedback text is missing
  or empty, the handler answers with status 400 and the store is as before. When the
  feedback text is not empty, a configuration is found, the API key is configured and the
  text-generation service returns no content or empty content, the handler answers with
  status 500 and the store is as before: no response record is created in either case.
\<close>

theorem generate_response_failures:
  "((GenerateRequest.feedbackText body = None \<or> GenerateRequest.feedbackText body = Some []) \<longrightarrow>
      generate_response storage k cc body st = (Failure 400 ''Feedback text is required'', st)) \<and>
   (GenerateRequest.feedbackText body = Some ft \<and> ft \<noteq> [] \<and>
    requested_configuration storage body st = Some config \<and> k \<and>
    cc (full_prompt config ft) (max_tokens (responseLength (FactConfiguration.systemFacts config)))
      = CompletionContent c \<and>
    (c = None \<or> c = Some []) \<longrightarrow>
      generate_response storage k cc body st = (Failure 500 ''Failed to generate response'', st))"
  using generate_response_empty_feedback [of body storage k cc st]
    generate_response_empty_content [of body ft storage st config k cc c]
  by blast

text \<open>Both failures on the in-memory store as its constructor leaves it.\<close>

theorem generate_response_failures_witness:
  "GenerateRequest.feedbackText empty_request = Some [] \<and>
   generate_response MemStorage_methods True no_content empty_request MemStorage_new =
     (Failure 400 ''Feedback text is required'', MemStorage_new) \<and>
   GenerateRequest.feedbackText great_food_request = Some ''Great food!'' \<and>
   requested_configuration MemStorage_methods great_food_request MemStorage_new =
     Some defaultConfiguration \<and>
   generate_response MemStorage_methods True no_content great_food_request MemStorage_new =
     (Failure 500 ''Failed to generate response'', MemStorage_new)"
proof -
  have e: "GenerateRequest.feedbackText empty_request = Some []" by (simp add: empty_request_def)
  have g: "GenerateRequest.feedbackText great_food_request = Some ''Great food!''"
    by (simp add: great_food_request_def)
  have r: "requested_configuration MemStorage_methods great_food_request MemStorage_new =
     Some defaultConfiguration"
    by (simp add: requested_configuration_def great_food_request_def MemStorage_methods_def
        mem_eval defaultConfiguration_def)
  have n: "no_content (full_prompt defaultConfiguration ''Great food!'')
      (max_tokens (responseLength (FactConfiguration.systemFacts defaultConfiguration)))
      = CompletionContent None" by (simp add: no_content_def)
  from generate_response_failures [of empty_request MemStorage_methods True no_content MemStorage_new] e
  have 1: "generate_response MemStorage_methods True no_content empty_request MemStorage_new =
     (Failure 400 ''Feedback text is required'', MemStorage_new)" by simp
  from generate_response_failures [of great_food_request MemStorage_methods True no_content
      MemStorage_new "''Great food!''" defaultConfiguration None] g r n
  have 2: "generate_response MemStorage_methods True no_content great_food_request MemStorage_new =
     (Failure 500 ''Failed to generate response'', MemStorage_new)" by simp
  from e g r 1 2 show ?thesis by simp
qed

text \<open>The same request on the file-backed store, evaluated.\<close>

lemma generate_response_no_content_file:
  "generate_response (FileStorage_methods io_ok) True no_content great_food_request
     (FileStorage_new io_ok no_files) =
     (Failure 500 ''Failed to generate response'', FileStorage_new io_ok no_files)"
  by (simp add: generate_response_def requested_configuration_def great_food_request_def
      FileStorage_methods_def no_content_def fs_eval Let_def)

section \<open>Rendering the prompt\<close>

subsection \<open>One replacement\<close>

lemma is_placeholder_ex:
  "is_placeholder p \<longleftrightarrow>
     (\<exists>n. p = CHR ''{'' # n @ [CHR ''}''] \<and>
          CHR ''{'' \<notin> set n \<and> CHR ''}'' \<notin> set n \<and> CHR ''$'' \<notin> set n)"
proof
  assume "is_placeholder p"
  then obtain r where r: "p = CHR ''{'' # r" "r \<noteq> []" "last r = CHR ''}''"
    "list_all (\<lambda>ch. ch \<noteq> CHR ''{'' \<and> ch \<noteq> CHR ''}'' \<and> ch \<noteq> CHR ''$'') (butlast r)"
    by (auto simp: is_placeholder_def split: list.splits)
  from r(2,3) have "r = butlast r @ [CHR ''}'']" by (metis append_butlast_last_id)
  with r(1,4) show "\<exists>n. p = CHR ''{'' # n @ [CHR ''}''] \<and>
          CHR ''{'' \<notin> set n \<and> CHR ''}'' \<notin> set n \<and> CHR ''$'' \<notin> set n"
    by (intro exI [of _ "butlast r"]) (auto simp: list_all_iff)
next
  assume "\<exists>n. p = CHR ''{'' # n @ [CHR ''}''] \<and>
          CHR ''{'' \<notin> set n \<and> CHR ''}'' \<notin> set n \<and> CHR ''$'' \<notin> set n"
  then show "is_placeholder p" by (auto simp: is_placeholder_def list_all_iff)
qed

lemma GetSubstitution_no_dollar:
  "CHR ''$'' \<notin> set v \<Longrightarrow> GetSubstitution m pre post v = v"
  by (induction m pre post v rule: GetSubstitution.induct) auto

lemma replace_go_skip:
  "CHR ''{'' \<notin> set x \<Longrightarrow> is_placeholder p \<Longrightarrow>
   replace_go p v pre (x @ s) = x @ replace_go p v (pre @ x) s"
proof (induction x arbitrary: pre)
  case Nil
  then show ?case by simp
next
  case (Cons c cs)
  from Cons.prems have "\<not> prefix p (c # cs @ s)" by (auto simp: is_placeholder_ex)
  with Cons show ?case by simp
qed

lemma replace_go_match:
  "p \<noteq> [] \<Longrightarrow>
   replace_go p v pre (p @ y) = GetSubstitution p pre y v @ replace_go p v (pre @ p) y"
  by (cases p) simp_all

lemma prefix_until_char:
  "c \<notin> set n \<Longrightarrow> c \<notin> set m \<Longrightarrow> prefix (n @ [c]) (m @ c # y) \<Longrightarrow> n = m"
proof (induction n arbitrary: m)
  case Nil
  then show ?case by (cases m) auto
next
  case (Cons a n)
  then show ?case by (cases m) auto
qed

lemma placeholder_prefix_eq:
  "is_placeholder p \<Longrightarrow> is_placeholder q \<Longrightarrow> prefix p (q @ y) \<Longrightarrow> p = q"
  by (auto simp: is_placeholder_ex dest: prefix_until_char)

text \<open>A placeholder does not match where another placeholder stands.\<close>

lemma replace_go_other_token:
  assumes "is_placeholder p" "is_placeholder q" "p \<noteq> q"
  shows "replace_go p v pre (q @ s) = q @ replace_go p v (pre @ q) s"
proof -
  from assms(2) obtain n where n: "q = CHR ''{'' # n @ [CHR ''}'']" "CHR ''{'' \<notin> set n"
    by (auto simp: is_placeholder_ex)
  from assms have np: "\<not> prefix p (q @ s)" using placeholder_prefix_eq by blast
  have rest: "CHR ''{'' \<notin> set (n @ [CHR ''}''])" using n(2) by simp
  have "replace_go p v pre (q @ s) = CHR ''{'' # replace_go p v (pre @ [CHR ''{'']) ((n @ [CHR ''}'']) @ s)"
    using np n(1) by simp
  also have "\<dots> = CHR ''{'' # (n @ [CHR ''}'']) @ replace_go p v ((pre @ [CHR ''{'']) @ (n @ [CHR ''}''])) s"
    by (simp only: replace_go_skip [OF rest assms(1)])
  finally show ?thesis using n(1) by simp
qed

subsection \<open>The eleven placeholders\<close>


lemma placeholders_are_placeholders: "list_all is_placeholder placeholders"
  by (simp add: placeholders_def is_placeholder_def)

lemma placeholders_distinct: "distinct placeholders"
  by (simp add: placeholders_def)


lemma placeholder_nth: "k < length placeholders \<Longrightarrow> is_placeholder (placeholders ! k)"
  using placeholders_are_placeholders by (simp add: list_all_length)

lemma placeholder_nth_neq:
  "k < length placeholders \<Longrightarrow> m < length placeholders \<Longrightarrow> m \<noteq> k \<Longrightarrow>
   placeholders ! m \<noteq> placeholders ! k"
  using placeholders_distinct by (simp add: nth_eq_iff_index_eq)

lemma substitutions_fst: "map fst (substitutions config fb) = placeholders"
  by (simp add: substitutions_def placeholders_def)

lemma substitutions_length: "length (substitutions config fb) = 11"
  by (simp add: substitutions_def)

lemma substitutions_snd_nth:
  "k < length placeholders \<Longrightarrow>
   map snd (substitutions config fb) ! k = snd (substitutions config fb ! k)"
  by (simp add: substitutions_length placeholders_def)

lemma renderPrompt_chain:
  "renderPrompt config fb =
   apply_substitutions (substitutions config fb) (promptTemplate (FactConfiguration.systemFacts config))"
  by (simp add: renderPrompt_def substitutions_def)

subsection \<open>Occurrences\<close>

lemma string_includes_prefix: "prefix v s \<Longrightarrow> string_includes s v"
  by (cases s) auto

lemma string_includes_middle: "string_includes (x @ v @ y) v"
proof (induction x)
  case Nil
  then show ?case by (simp add: string_includes_prefix)
next
  case (Cons c cs)
  then show ?case by simp
qed

lemma string_includes_set: "string_includes s p \<Longrightarrow> set p \<subseteq> set s"
proof (induction s)
  case Nil
  then show ?case by simp
next
  case (Cons c cs)
  then show ?case using set_mono_prefix [of p "c # cs"] by auto
qed

lemma no_open_no_placeholder:
  "CHR ''{'' \<notin> set s \<Longrightarrow> is_placeholder p \<Longrightarrow> \<not> string_includes s p"
  using string_includes_set [of s p] by (auto simp: is_placeholder_ex)

lemma list_all_not_included:
  "CHR ''{'' \<notin> set s \<Longrightarrow> list_all (\<lambda>p. \<not> string_includes s p) placeholders"
  using placeholders_are_placeholders no_open_no_placeholder [of s]
  by (auto simp: list_all_iff)

subsection \<open>Replacements on a template of texts and placeholders\<close>

text \<open>
  On a template that is written as texts without an opening brace and placeholders, the
  replacement number \<open>k\<close> puts the value in the place of every placeholder number \<open>k\<close>
  and leaves everything else as it is.
\<close>

lemma replace_go_segments:
  assumes "list_all wf_segment segs" "k < length placeholders"
    and "Hole k \<in> set segs \<longrightarrow> CHR ''$'' \<notin> set v"
  shows "replace_go (placeholders ! k) v pre (flatten segs) = concat (map (replaced k v) segs)"
  using assms(1,3)
proof (induction segs arbitrary: pre)
  case Nil
  then show ?case by (simp add: flatten_def)
next
  case (Cons seg segs)
  have pk: "is_placeholder (placeholders ! k)" using assms(2) by (rule placeholder_nth)
  from Cons.prems have ih: "\<And>pre. replace_go (placeholders ! k) v pre (flatten segs) =
      concat (map (replaced k v) segs)"
    by (intro Cons.IH) auto
  show ?case
  proof (cases seg)
    case (Text t)
    with Cons.prems have "CHR ''{'' \<notin> set t" by simp
    from replace_go_skip [OF this pk] ih Text show ?thesis by (simp add: flatten_def)
  next
    case (Hole m)
    with Cons.prems have m: "m < length placeholders" by simp
    show ?thesis
    proof (cases "m = k")
      case True
      with Hole Cons.prems have d: "CHR ''$'' \<notin> set v" by simp
      from pk have ne: "placeholders ! k \<noteq> []" by (auto simp: is_placeholder_ex)
      from replace_go_match [OF ne] GetSubstitution_no_dollar [OF d] ih Hole True
      show ?thesis by (simp add: flatten_def)
    next
      case False
      from assms(2) m False have "placeholders ! k \<noteq> placeholders ! m"
        using placeholder_nth_neq by blast
      from replace_go_other_token [OF pk placeholder_nth [OF m] this] ih Hole False
      show ?thesis by (simp add: flatten_def)
    qed
  qed
qed

lemma replace_global_segments:
  assumes "list_all wf_segment segs" "k < length placeholders"
    and "Hole k \<in> set segs \<longrightarrow> CHR ''$'' \<notin> set v"
  shows "replace_global (placeholders ! k) v (flatten segs) = concat (map (replaced k v) segs)"
  unfolding replace_global_def using assms by (rule replace_go_segments)

lemma fits_fill_below_wf:
  "fits vals seg \<Longrightarrow> wf_segment (fill_below k vals seg)"
  by (cases seg) (auto simp: plain_def)

lemma replaced_fill_below:
  "replaced k (vals ! k) (fill_below k vals seg) = segment_text (fill_below (Suc k) vals seg)"
  by (cases seg) (auto simp: less_Suc_eq)

lemma step_fill_below:
  assumes "list_all (fits vals) segs" "k < length placeholders"
  shows "replace_global (placeholders ! k) (vals ! k) (flatten (map (fill_below k vals) segs)) =
         flatten (map (fill_below (Suc k) vals) segs)"
proof -
  have wf: "list_all wf_segment (map (fill_below k vals) segs)"
    using assms(1) by (auto simp: list_all_iff fits_fill_below_wf)
  have d: "Hole k \<in> set (map (fill_below k vals) segs) \<longrightarrow> CHR ''$'' \<notin> set (vals ! k)"
  proof
    assume "Hole k \<in> set (map (fill_below k vals) segs)"
    then obtain seg where seg: "seg \<in> set segs" "fill_below k vals seg = Hole k" by auto
    from seg(2) have "seg = Hole k" by (cases seg) (simp_all split: if_splits)
    with seg(1) assms(1) show "CHR ''$'' \<notin> set (vals ! k)" by (auto simp: list_all_iff plain_def)
  qed
  have "replace_global (placeholders ! k) (vals ! k) (flatten (map (fill_below k vals) segs)) =
        concat (map (replaced k (vals ! k)) (map (fill_below k vals) segs))"
    using wf assms(2) d by (rule replace_global_segments)
  also have "\<dots> = flatten (map (fill_below (Suc k) vals) segs)"
    by (simp add: flatten_def replaced_fill_below comp_def)
  finally show ?thesis .
qed

text \<open>
  A run of replacements whose values are plain fills the placeholders of the run one after
  the other.
\<close>

lemma benign_run:
  assumes "map fst ps = placeholders" "list_all (fits vals) segs"
  shows "k + n \<le> length placeholders \<Longrightarrow> (\<forall>m. k \<le> m \<and> m < k + n \<longrightarrow> snd (ps ! m) = vals ! m) \<Longrightarrow>
    apply_substitutions (take n (drop k ps)) (flatten (map (fill_below k vals) segs)) =
    flatten (map (fill_below (k + n) vals) segs)"
proof (induction n arbitrary: k)
  case 0
  then show ?case by simp
next
  case (Suc n)
  from assms(1) have len: "length ps = length placeholders" by (metis length_map)
  from Suc.prems len have k: "k < length ps" by simp
  then have dk: "drop k ps = ps ! k # drop (Suc k) ps" by (simp add: Cons_nth_drop_Suc)
  from k assms(1) have fk: "fst (ps ! k) = placeholders ! k" by (metis nth_map)
  from Suc.prems have sk: "snd (ps ! k) = vals ! k" by simp
  from fk sk have pk: "ps ! k = (placeholders ! k, vals ! k)" by (metis prod.collapse)
  from k len have kp: "k < length placeholders" by simp
  have ih: "apply_substitutions (take n (drop (Suc k) ps)) (flatten (map (fill_below (Suc k) vals) segs)) =
    flatten (map (fill_below (Suc k + n) vals) segs)"
    using Suc.prems by (intro Suc.IH) auto
  show ?case
    by (simp add: dk pk step_fill_below [OF assms(2) kp] ih)
qed

lemma fill_below_all:
  "list_all (fits vals) segs \<Longrightarrow>
   flatten (map (fill_below (length placeholders) vals) segs) = fill vals segs"
  by (induction segs) (auto simp: flatten_def fill_def elim: fits.elims)

lemma fill_below_0: "fill_below 0 vals seg = seg"
  by (cases seg) simp_all

lemma fill_below_none: "map (fill_below 0 vals) segs = segs"
  by (induction segs) (simp_all add: fill_below_0)

lemma fill_no_open: "list_all (fits vals) segs \<Longrightarrow> CHR ''{'' \<notin> set (fill vals segs)"
  by (induction segs) (auto simp: fill_def plain_def elim: fits.elims)

text \<open>With plain values the chain gives the template with every placeholder filled.\<close>

lemma render_plain:
  assumes "map fst ps = placeholders" "list_all (fits (map snd ps)) segs"
  shows "apply_substitutions ps (flatten segs) = fill (map snd ps) segs"
proof -
  from assms(1) have len: "length ps = length placeholders" by (metis length_map)
  have "apply_substitutions (take (length placeholders) (drop 0 ps))
          (flatten (map (fill_below 0 (map snd ps)) segs)) =
        flatten (map (fill_below (0 + length placeholders) (map snd ps)) segs)"
    using assms by (intro benign_run) (auto simp: len)
  then show ?thesis using len by (simp add: fill_below_none fill_below_all [OF assms(2)])
qed

lemma fill_append: "fill vals (xs @ ys) = fill vals xs @ fill vals ys"
  by (simp add: fill_def)

lemma fill_Cons: "fill vals (seg # segs) = filled vals seg @ fill vals segs"
  by (simp add: fill_def)



text \<open>The definitions that evaluate a rendering on a concrete configuration.\<close>

lemmas render_eval = template_configuration_def defaultConfiguration_def defaultFacts_def
  substitutions_def

lemmas segment_eval = flatten_def fill_def plain_def placeholders_def

subsection \<open>A placeholder and its value\<close>

text \<open>
  C1, as amended (a placeholder is replaced by its value). Let the template be written as
  texts without an opening brace and recognized placeholders, one of them the placeholder
  number \<open>k\<close>, and let the value of every placeholder that the template has contain
  neither an opening brace nor a dollar sign. Then the rendered prompt is the template
  with the value in the place of each placeholder: where the placeholder number \<open>k\<close>
  stood, its value stands as it is, and none of the eleven placeholders occurs in the
  rendered prompt.
\<close>

theorem placeholder_replaced_by_value:
  assumes "promptTemplate (FactConfiguration.systemFacts config) = flatten (front @ [Hole k] @ back)"
    and "list_all (fits (map snd (substitutions config fb))) (front @ [Hole k] @ back)"
  shows "renderPrompt config fb =
           fill (map snd (substitutions config fb)) front
           @ snd (substitutions config fb ! k)
           @ fill (map snd (substitutions config fb)) back \<and>
         string_includes (renderPrompt config fb) (snd (substitutions config fb ! k)) \<and>
         list_all (\<lambda>p. \<not> string_includes (renderPrompt config fb) p) placeholders"
proof -
  let ?ps = "substitutions config fb"
  let ?vals = "map snd ?ps"
  from assms(2) have k: "k < length placeholders" by simp
  have r: "renderPrompt config fb = fill ?vals (front @ [Hole k] @ back)"
    using render_plain [OF substitutions_fst assms(2)] assms(1) by (simp add: renderPrompt_chain)
  from r have e: "renderPrompt config fb = fill ?vals front @ snd (?ps ! k) @ fill ?vals back"
    using substitutions_snd_nth [OF k, of config fb] by (simp add: fill_append fill_Cons)
  from r fill_no_open [OF assms(2)] have "CHR ''{'' \<notin> set (renderPrompt config fb)" by simp
  then have n: "list_all (\<lambda>p. \<not> string_includes (renderPrompt config fb) p) placeholders"
    by (rule list_all_not_included)
  from e n show ?thesis by (simp add: string_includes_middle)
qed

text \<open>The scenario of the spec: a template with the customer name and the restaurant name.\<close>

theorem placeholder_replaced_by_value_witness:
  "promptTemplate (FactConfiguration.systemFacts
      (template_configuration ''Hello {Customer Name} from {Restaurant Name}''))
     = flatten ([Text ''Hello ''] @ [Hole 4] @ [Text '' from '', Hole 0]) \<and>
   list_all (fits (map snd (substitutions
        (template_configuration ''Hello {Customer Name} from {Restaurant Name}'') ''Great food!'')))
     ([Text ''Hello ''] @ [Hole 4] @ [Text '' from '', Hole 0]) \<and>
   renderPrompt (template_configuration ''Hello {Customer Name} from {Restaurant Name}'')
     ''Great food!'' = ''Hello John Doe from Sample Bistro'' \<and>
   string_includes
     (renderPrompt (template_configuration ''Hello {Customer Name} from {Restaurant Name}'')
        ''Great food!'') ''John Doe'' \<and>
   list_all (\<lambda>p. \<not> string_includes
     (renderPrompt (template_configuration ''Hello {Customer Name} from {Restaurant Name}'')
        ''Great food!'') p) placeholders"
proof -
  let ?c = "template_configuration ''Hello {Customer Name} from {Restaurant Name}''"
  have t: "promptTemplate (FactConfiguration.systemFacts ?c)
     = flatten ([Text ''Hello ''] @ [Hole 4] @ [Text '' from '', Hole 0])"
    by (simp add: render_eval segment_eval)
  have f: "list_all (fits (map snd (substitutions ?c ''Great food!'')))
     ([Text ''Hello ''] @ [Hole 4] @ [Text '' from '', Hole 0])"
    by (simp add: render_eval segment_eval)
  have v: "snd (substitutions ?c ''Great food!'' ! 4) = ''John Doe''"
    "fill (map snd (substitutions ?c ''Great food!'')) [Text ''Hello ''] = ''Hello ''"
    "fill (map snd (substitutions ?c ''Great food!'')) [Text '' from '', Hole 0] = '' from Sample Bistro''"
    by (simp_all add: render_eval segment_eval)
  note th = placeholder_replaced_by_value [OF t f]
  have e: "renderPrompt ?c ''Great food!'' = ''Hello John Doe from Sample Bistro''"
    using th [THEN conjunct1] v by simp
  have inc: "string_includes (renderPrompt ?c ''Great food!'') ''John Doe''"
    using th [THEN conjunct2, THEN conjunct1] v(1) by (simp only:)
  have none: "list_all (\<lambda>p. \<not> string_includes (renderPrompt ?c ''Great food!'') p) placeholders"
    using th [THEN conjunct2, THEN conjunct2] .
  show ?thesis using t f e inc none by (intro conjI) assumption+
qed

text \<open>
  C1 as stated fails. A feedback text that contains the placeholder of the restaurant todo
  facts is not in the rendered prompt as it was given: the later replacement rewrites it.
  The feedback text \<open>$&\<close> is expanded by \<open>replace\<close> to the matched text, so the rendered
  prompt still contains the placeholder and does not contain the value. And a value that
  the template contains elsewhere stands in the rendered prompt twice.
\<close>

theorem value_with_placeholder_or_dollar_not_literal:
  "renderPrompt (template_configuration ''Feedback: {Customer Feedback Text}'')
     ''see {Restaurant Todo List Facts}''
     = ''Feedback: see Currently running Summer Specials, Famous for seafood dishes'' \<and>
   \<not> string_includes
       (renderPrompt (template_configuration ''Feedback: {Customer Feedback Text}'')
          ''see {Restaurant Todo List Facts}'')
       ''see {Restaurant Todo List Facts}'' \<and>
   renderPrompt (template_configuration ''Feedback: {Customer Feedback Text}'') ''$&''
     = ''Feedback: {Customer Feedback Text}'' \<and>
   renderPrompt (template_configuration ''Great {Customer Feedback Text}'') ''Great''
     = ''Great Great''"
  by code_simp

text \<open>The scenario of the spec, evaluated.\<close>

lemma renderPrompt_example:
  "renderPrompt (template_configuration ''Hello {Customer Name} from {Restaurant Name}'')
     ''Great food!'' = ''Hello John Doe from Sample Bistro''"
  by code_simp

text \<open>The default template is of this kind: texts without an opening brace and placeholders.\<close>

lemma default_template_segments:
  \<open>defaultPromptTemplate = flatten
     [Text ''You are a customer relationship manager for a restaurant named "'', Hole 0,
      Text ''", located at "'', Hole 1, Text ''". The restaurant type is "'', Hole 2,
      Text ''" and communicates with a "'', Hole 3,
      Text ''" tone.\<newline>\<newline>A customer named "'', Hole 4, Text ''" ('', Hole 5,
      Text ''), a "'', Hole 6, Text ''" customer, recently had "'', Hole 7,
      Text ''" and left feedback: "'', Hole 8,
      Text ''".\<newline>\<newline>Consider the following additional restaurant facts: '', Hole 9,
      Text ''\<newline>Consider the following additional customer facts: '', Hole 10,
      Text ''\<newline>\<newline>Generate a thoughtful, concise response addressing the customer's feedback appropriately. If feedback is negative, consider a polite apology. If positive, consider a friendly marketing message inviting them back.'']\<close>
  by (simp add: defaultPromptTemplate_def segment_eval)

subsection \<open>A value that contains a later placeholder\<close>






text \<open>
  The order matters: a placeholder inside a value whose own replacement has already been
  done stays in the rendered prompt as it is.
\<close>

lemma earlier_placeholder_in_value_stays:
  "renderPrompt (template_configuration ''{Customer Name} wrote: {Customer Feedback Text}'')
     ''see {Restaurant Name}!'' = ''John Doe wrote: see {Restaurant Name}!''"
  by code_simp

end
